theory Spec2Isabelle
  imports Complex_Main
begin

section \<open>Arrays, boolean masks and errors\<close>

text \<open>
  The engine of \<^verbatim>\<open>pyqmc/jastrowspin.py\<close> works on numpy arrays of double precision
  numbers. An array is a nested list in the index order of the source (axis 0 outermost) and
  a number is a \<open>real\<close>: the arithmetic of the model is exact, rounding is not part of it.
  A position or a separation, the trailing axis of length 3, is a triple.

  A boolean mask over the walker axis is a \<open>bool list\<close>. Indexing an axis with a mask of
  another length raises IndexError in numpy, unless the mask has no entry: a mask of length
  zero is taken on any axis and selects nothing. An index past the end of an axis raises
  IndexError too. Both errors are values of the model. Shape mismatches inside arithmetic
  are not modelled: the theorems below speak about engines whose caches have the shapes
  \<^verbatim>\<open>recompute\<close> gives them.
\<close>

datatype error = IndexError

type_synonym vec = "real \<times> real \<times> real"

definition bindE :: "error + 'a \<Rightarrow> ('a \<Rightarrow> error + 'b) \<Rightarrow> error + 'b" where
  "bindE m f = (case m of Inl err \<Rightarrow> Inl err | Inr x \<Rightarrow> f x)"

text \<open>\<^verbatim>\<open>xs[mask]\<close> keeps the entries of \<open>xs\<close> whose flag is set, in order.\<close>

fun gather :: "'a list \<Rightarrow> bool list \<Rightarrow> 'a list" where
  "gather (x # xs) (m # ms) = (if m then x # gather xs ms else gather xs ms)"
| "gather _ _ = []"

text \<open>
  The index expression raises when the mask has another length than the axis, except for
  the mask of length zero, which numpy takes as the empty selection.
\<close>

definition bool_index :: "'a list \<Rightarrow> bool list \<Rightarrow> error + 'a list" where
  "bool_index xs msk =
     (if length msk = length xs \<or> msk = [] then Inr (gather xs msk) else Inl IndexError)"

text \<open>
  In an indexed assignment the mask selects walker \<open>w\<close> when it has an entry for \<open>w\<close> and
  that entry is set.
\<close>

definition selected :: "bool list \<Rightarrow> nat \<Rightarrow> bool" where
  "selected msk w = (w < length msk \<and> msk ! w)"

text \<open>
  \<^verbatim>\<open>xs[:, mask]\<close>: the mask selects along axis 1, whose length it must have unless it has
  no entry.
\<close>

definition bool_index_ax1 :: "'a list list \<Rightarrow> bool list \<Rightarrow> error + 'a list list" where
  "bool_index_ax1 xs msk =
     (if list_all (\<lambda>row. length row = length msk) xs \<or> msk = []
      then Inr (map (\<lambda>row. gather row msk) xs) else Inl IndexError)"

text \<open>
  The place, in \<^verbatim>\<open>xs[mask]\<close>, of the entry that has index \<open>i\<close> in \<open>xs\<close>: the number of
  flags set before \<open>i\<close>.
\<close>

definition rank :: "bool list \<Rightarrow> nat \<Rightarrow> nat" where
  "rank msk i = length (filter id (take i msk))"

text \<open>
  An indexed assignment \<^verbatim>\<open>a[I] = v\<close> or \<^verbatim>\<open>a[I] += v\<close> writes the entries that the index
  expression \<open>I\<close> selects and leaves every other entry as it is. \<open>upd\<^sub>n a P f\<close> is the
  array \<open>a\<close> of \<open>n\<close> axes in which every entry selected by \<open>P\<close> is replaced by \<open>f\<close> of
  its indices and its old value.
\<close>

fun mapi :: "(nat \<Rightarrow> 'a \<Rightarrow> 'b) \<Rightarrow> nat \<Rightarrow> 'a list \<Rightarrow> 'b list" where
  "mapi f i [] = []"
| "mapi f i (x # xs) = f i x # mapi f (Suc i) xs"

definition upd2 :: "'a list list \<Rightarrow> (nat \<Rightarrow> nat \<Rightarrow> bool) \<Rightarrow> (nat \<Rightarrow> nat \<Rightarrow> 'a \<Rightarrow> 'a) \<Rightarrow> 'a list list" where
  "upd2 a P f = mapi (\<lambda>i. mapi (\<lambda>j x. if P i j then f i j x else x) 0) 0 a"

definition upd3 :: "'a list list list \<Rightarrow> (nat \<Rightarrow> nat \<Rightarrow> nat \<Rightarrow> bool)
    \<Rightarrow> (nat \<Rightarrow> nat \<Rightarrow> nat \<Rightarrow> 'a \<Rightarrow> 'a) \<Rightarrow> 'a list list list" where
  "upd3 a P f = mapi (\<lambda>i. mapi (\<lambda>j. mapi (\<lambda>k x. if P i j k then f i j k x else x) 0) 0) 0 a"

definition upd4 :: "'a list list list list \<Rightarrow> (nat \<Rightarrow> nat \<Rightarrow> nat \<Rightarrow> nat \<Rightarrow> bool)
    \<Rightarrow> (nat \<Rightarrow> nat \<Rightarrow> nat \<Rightarrow> nat \<Rightarrow> 'a \<Rightarrow> 'a) \<Rightarrow> 'a list list list list" where
  "upd4 a P f =
     mapi (\<lambda>i. mapi (\<lambda>j. mapi (\<lambda>k. mapi (\<lambda>l x. if P i j k l then f i j k l x else x) 0) 0) 0) 0 a"

text \<open>Elementwise difference of two arrays of the same shape, and the contractions.\<close>

definition sub1 :: "real list \<Rightarrow> real list \<Rightarrow> real list" where
  "sub1 xs ys = map2 (-) xs ys"

definition sub2 :: "real list list \<Rightarrow> real list list \<Rightarrow> real list list" where
  "sub2 xs ys = map2 sub1 xs ys"

definition sub3 :: "real list list list \<Rightarrow> real list list list \<Rightarrow> real list list list" where
  "sub3 xs ys = map2 sub2 xs ys"

definition dot1 :: "real list \<Rightarrow> real list \<Rightarrow> real" where
  "dot1 xs ys = sum_list (map2 (*) xs ys)"

definition dot2 :: "real list list \<Rightarrow> real list list \<Rightarrow> real" where
  "dot2 xs ys = sum_list (map2 dot1 xs ys)"

definition dot3 :: "real list list list \<Rightarrow> real list list list \<Rightarrow> real" where
  "dot3 xs ys = sum_list (map2 dot2 xs ys)"

section \<open>Separations\<close>

definition vsub :: "vec \<Rightarrow> vec \<Rightarrow> vec" where
  "vsub a b = (case a of (ax, ay, az) \<Rightarrow> case b of (bx, by, bz) \<Rightarrow> (ax - bx, ay - by, az - bz))"


text \<open>\<^verbatim>\<open>np.linalg.norm(d, axis=-1)\<close> on one separation.\<close>

definition vnorm :: "vec \<Rightarrow> real" where
  "vnorm a = (case a of (ax, ay, az) \<Rightarrow> sqrt (ax * ax + ay * ay + az * az))"


text \<open>
  Modelled from the spec: the distance object \<^verbatim>\<open>configs.dist\<close> (module
  \<^verbatim>\<open>pyqmc.distance\<close>, class \<^verbatim>\<open>RawDistance\<close>) is not among the sources. The spec names its
  three queries: separations from one point per walker to a set of particles, a triangular
  enumeration (each pair \<open>i < j\<close> once, no self pair) within one set, and the full Cartesian
  enumeration between two sets. A separation is taken as the first position minus the
  second.
\<close>

definition dist_i :: "vec list list \<Rightarrow> vec list \<Rightarrow> vec list list" where
  "dist_i cfgs vecs = map2 (\<lambda>row v. map (\<lambda>p. vsub v p) row) cfgs vecs"

text \<open>The same query against positions without a walker axis (the ions).\<close>

definition dist_i_fixed :: "vec list \<Rightarrow> vec list \<Rightarrow> vec list list" where
  "dist_i_fixed coords vecs = map (\<lambda>v. map (\<lambda>p. vsub v p) coords) vecs"

fun tri_pairs :: "vec list \<Rightarrow> vec list" where
  "tri_pairs [] = []"
| "tri_pairs (x # xs) = map (\<lambda>y. vsub x y) xs @ tri_pairs xs"

definition dist_matrix :: "vec list list \<Rightarrow> vec list list" where
  "dist_matrix cfgs = map tri_pairs cfgs"

definition pairwise_dist :: "vec list list \<Rightarrow> vec list list \<Rightarrow> vec list list" where
  "pairwise_dist c1 c2 = map2 (\<lambda>r1 r2. concat (map (\<lambda>x. map (\<lambda>y. vsub x y) r2) r1)) c1 c2"

section \<open>The collaborators of the engine\<close>

text \<open>
  Modelled from the spec: a basis function (module \<^verbatim>\<open>pyqmc.func3d\<close>, not among the
  sources) is a parameter of the engine. It maps a separation and its norm to a value, to
  a gradient and to the three second derivatives whose sum is the Laplacian; on an array
  it works entry by entry.
\<close>

record basis_function =
  fvalue :: "vec \<Rightarrow> real \<Rightarrow> real"
  fgradient :: "vec \<Rightarrow> real \<Rightarrow> vec"
  fgradient_laplacian :: "vec \<Rightarrow> real \<Rightarrow> vec \<times> vec"

text \<open>The molecule: \<^verbatim>\<open>mol.nelec\<close>, \<^verbatim>\<open>mol.natm\<close> and \<^verbatim>\<open>mol.atom_coords()\<close>.\<close>

record molecule =
  nelec :: "nat \<times> nat"
  natm :: nat
  atom_coords :: "vec list"

text \<open>
  Modelled from the spec: the configuration ensemble (not among the sources) holds the
  positions \<^verbatim>\<open>configs[w, e]\<close> of every particle of every walker; \<^verbatim>\<open>electron(e)\<close> is the
  column of particle \<open>e\<close> and \<^verbatim>\<open>move(e, new, accept)\<close> writes the new position of particle
  \<open>e\<close> for the walkers the mask accepts. The proposed position \<^verbatim>\<open>epos\<close> of one particle is
  such a column: one position per walker.
\<close>

type_synonym configs = "vec list list"

definition electron :: "configs \<Rightarrow> nat \<Rightarrow> vec list" where
  "electron cfg e = map (\<lambda>row. row ! e) cfg"

definition move :: "configs \<Rightarrow> nat \<Rightarrow> vec list \<Rightarrow> bool list \<Rightarrow> error + configs" where
  "move cfg e new accept =
     bindE (bool_index new accept) (\<lambda>newm.
     bindE (bool_index cfg accept) (\<lambda>_.
       Inr (upd2 cfg (\<lambda>w j. selected accept w \<and> j = e) (\<lambda>w j old. newm ! rank accept w))))"

section \<open>The engine\<close>

text \<open>
  The object of class \<^verbatim>\<open>JastrowSpin\<close> from its first \<^verbatim>\<open>recompute\<close> on: the fields of
  \<^verbatim>\<open>__init__\<close> and the caches. \<open>bcoeff\<close> and \<open>acoeff\<close> are the two entries of the
  dictionary \<^verbatim>\<open>parameters\<close>. A particle index is a natural number: the negative indices
  that numpy counts from the end of an axis are not modelled.
\<close>

record jastrow =
  mol :: molecule
  nelec_total :: nat
  a_basis :: "basis_function list"
  b_basis :: "basis_function list"
  bcoeff :: "real list list"
  acoeff :: "real list list list"
  configscurrent :: configs
  bvalues :: "real list list list"
  avalues :: "real list list list list"
  a_partial :: "real list list list list"
  b_partial :: "real list list list list"

text \<open>\<^verbatim>\<open>a[e, mask]\<close>: the row of particle \<open>e\<close>, then the masked walkers.\<close>

definition index_e_mask :: "'a list list \<Rightarrow> nat \<Rightarrow> bool list \<Rightarrow> error + 'a list" where
  "index_e_mask a e msk = (if e < length a then bool_index (a ! e) msk else Inl IndexError)"

text \<open>
  \<^verbatim>\<open>_a_update\<close>: the one-body basis values of particle \<open>e\<close> at \<open>epos\<close>, for the masked
  walkers, indexed (masked walker, ion, basis function).
\<close>

definition a_update :: "jastrow \<Rightarrow> nat \<Rightarrow> vec list \<Rightarrow> bool list \<Rightarrow> error + real list list list" where
  "a_update self e epos msk =
     bindE (bool_index epos msk) (\<lambda>em.
       let d = dist_i_fixed (atom_coords (mol self)) em;
           r = map (map vnorm) d
       in Inr (map2 (\<lambda>dw rw. map2 (\<lambda>dv rv. map (\<lambda>a. fvalue a dv rv) (a_basis self)) dw rw) d r))"

text \<open>
  \<^verbatim>\<open>_b_update\<close>: the two-body sums between particle \<open>e\<close> at \<open>epos\<close> and the other
  particles, indexed (masked walker, basis function, spin of the others).
\<close>

definition not_e_mask :: "nat \<Rightarrow> nat \<Rightarrow> bool list" where
  "not_e_mask n e = map (\<lambda>i. i \<noteq> e) [0..<n]"

definition b_update :: "jastrow \<Rightarrow> nat \<Rightarrow> vec list \<Rightarrow> bool list \<Rightarrow> error + real list list list" where
  "b_update self e epos msk =
     (let nup = fst (nelec (mol self));
          sep = nup - (if e < nup then 1 else 0);
          not_e = not_e_mask (nelec_total self) e
      in bindE (bool_index (configscurrent self) msk) (\<lambda>cm.
         bindE (bool_index_ax1 cm not_e) (\<lambda>others.
         bindE (bool_index epos msk) (\<lambda>em.
           let d = dist_i others em;
               r = map (map vnorm) d
           in Inr (map2 (\<lambda>dw rw. map (\<lambda>b.
                 let bval = map2 (fvalue b) dw rw
                 in [sum_list (take sep bval), sum_list (drop sep bval)]) (b_basis self)) d r)))))"

text \<open>
  \<^verbatim>\<open>_update_b_partial\<close>: one round of the loop over the two-body basis, then the loop.
  The round of basis function \<open>l\<close> corrects the partial sums of the other particles by the
  change of their pair with \<open>e\<close>, and overwrites the two partial sums of \<open>e\<close>.
\<close>

definition update_b_partial_round :: "nat \<Rightarrow> bool list \<Rightarrow> bool list \<Rightarrow> nat \<Rightarrow> nat
    \<Rightarrow> vec list list \<Rightarrow> real list list \<Rightarrow> vec list list \<Rightarrow> real list list
    \<Rightarrow> basis_function list \<Rightarrow> nat \<Rightarrow> real list list list list \<Rightarrow> real list list list list" where
  "update_b_partial_round e msk not_e sep edown d r dold rold basis l bp =
     (let b = basis ! l;
          bval = map2 (map2 (fvalue b)) d r;
          bdiff = sub2 bval (map2 (map2 (fvalue b)) dold rold);
          bp1 = upd4 bp (\<lambda>j w l' s. selected not_e j \<and> selected msk w \<and> l' = l \<and> s = edown)
                  (\<lambda>j w l' s old. old + bdiff ! rank msk w ! rank not_e j);
          bp2 = upd4 bp1 (\<lambda>j w l' s. j = e \<and> selected msk w \<and> l' = l \<and> s = 0)
                  (\<lambda>j w l' s old. sum_list (take sep (bval ! rank msk w)))
      in upd4 bp2 (\<lambda>j w l' s. j = e \<and> selected msk w \<and> l' = l \<and> s = 1)
                  (\<lambda>j w l' s old. sum_list (drop sep (bval ! rank msk w))))"

definition update_b_partial :: "jastrow \<Rightarrow> nat \<Rightarrow> vec list \<Rightarrow> bool list \<Rightarrow> error + jastrow" where
  "update_b_partial self e epos msk =
     (let nup = fst (nelec (mol self));
          sep = nup - (if e < nup then 1 else 0);
          not_e = not_e_mask (nelec_total self) e;
          edown = (if e \<ge> nup then 1 else 0)
      in bindE (bool_index (configscurrent self) msk) (\<lambda>cm.
         bindE (bool_index_ax1 cm not_e) (\<lambda>others.
         bindE (bool_index epos msk) (\<lambda>em.
         bindE (if list_all (\<lambda>row. e < length row) cm then Inr (map (\<lambda>row. row ! e) cm)
                else Inl IndexError) (\<lambda>eold.
           let d = dist_i others em;
               r = map (map vnorm) d;
               dold = dist_i others eold;
               rold = map (map vnorm) dold
           in Inr (self\<lparr>b_partial :=
                 fold (update_b_partial_round e msk not_e sep edown d r dold rold (b_basis self))
                   [0..<length (b_basis self)] (b_partial self)\<rparr>))))))"

text \<open>
  \<^verbatim>\<open>updateinternals\<close>: commit the move of particle \<open>e\<close> to \<open>epos\<close> for the masked walkers.
  The argument \<^verbatim>\<open>wrap\<close> is not used by the source.
\<close>

definition updateinternals :: "jastrow \<Rightarrow> nat \<Rightarrow> vec list \<Rightarrow> bool list option \<Rightarrow> error + jastrow" where
  "updateinternals self e epos mask_opt =
     (let msk = (case mask_opt of None \<Rightarrow> replicate (length (configscurrent self)) True
                  | Some m \<Rightarrow> m);
          edown = (if e \<ge> fst (nelec (mol self)) then 1 else 0)
      in bindE (a_update self e epos msk) (\<lambda>aupdate.
         bindE (b_update self e epos msk) (\<lambda>bupdate.
         bindE (index_e_mask (a_partial self) e msk) (\<lambda>apart.
         bindE (bool_index (avalues self) msk) (\<lambda>_.
         bindE (index_e_mask (b_partial self) e msk) (\<lambda>bpart.
         bindE (bool_index (bvalues self) msk) (\<lambda>_.
           let adiff = sub3 aupdate apart;
               bdiff = sub3 bupdate bpart;
               self1 = self\<lparr>avalues := upd4 (avalues self) (\<lambda>w i k s. selected msk w \<and> s = edown)
                  (\<lambda>w i k s old. old + adiff ! rank msk w ! i ! k)\<rparr>;
               self2 = self1\<lparr>bvalues := upd3 (bvalues self1)
                  (\<lambda>w l c. selected msk w \<and> edown \<le> c \<and> c < edown + 2)
                  (\<lambda>w l c old. old + bdiff ! rank msk w ! l ! (c - edown))\<rparr>;
               self3 = self2\<lparr>a_partial := upd4 (a_partial self2) (\<lambda>j w i k. j = e \<and> selected msk w)
                  (\<lambda>j w i k old. aupdate ! rank msk w ! i ! k)\<rparr>
           in bindE (update_b_partial self3 e epos msk) (\<lambda>self4.
              bindE (move (configscurrent self4) e epos msk) (\<lambda>cfg.
                Inr (self4\<lparr>configscurrent := cfg\<rparr>))))))))))"

text \<open>
  \<^verbatim>\<open>value\<close>: the sign and, per walker, the contraction of the cached sums with the
  coefficients.
\<close>

definition value_wf :: "jastrow \<Rightarrow> int \<times> real list" where
  "value_wf self =
     (let u = map (\<lambda>bw. dot2 bw (bcoeff self)) (bvalues self);
          u = map2 (+) u (map (\<lambda>aw. dot3 aw (acoeff self)) (avalues self))
      in (1, u))"

text \<open>
  \<^verbatim>\<open>testvalue\<close>: the ratio for the move of particle \<open>e\<close> to \<open>epos\<close>, per masked walker.
  The proposed position has one point per walker, so the result has one axis and the
  transposition of the source does not apply. The engine is returned as the call leaves it.
\<close>

definition testvalue :: "jastrow \<Rightarrow> nat \<Rightarrow> vec list \<Rightarrow> bool list option
    \<Rightarrow> error + (real list \<times> jastrow)" where
  "testvalue self e epos mask_opt =
     (let msk = (case mask_opt of None \<Rightarrow> replicate (length epos) True | Some m \<Rightarrow> m);
          edown = (if e \<ge> fst (nelec (mol self)) then 1 else 0)
      in bindE (a_update self e epos msk) (\<lambda>aupdate.
         bindE (index_e_mask (a_partial self) e msk) (\<lambda>apart.
           let deltaa = sub3 aupdate apart;
               a_val = map (\<lambda>dw. dot2 dw (map (map (\<lambda>c. c ! edown)) (acoeff self))) deltaa
           in bindE (b_update self e epos msk) (\<lambda>bupdate.
              bindE (index_e_mask (b_partial self) e msk) (\<lambda>bpart.
                let deltab = sub3 bupdate bpart;
                    b_val = map (\<lambda>dw. dot2 dw (map (\<lambda>c. take 2 (drop edown c)) (bcoeff self)))
                              deltab;
                    val = map exp (map2 (+) b_val a_val)
                in Inr (val, self))))))"

text \<open>\<^verbatim>\<open>pgradient\<close>: the dictionary with its two keys, as an association list.\<close>

datatype tensor = Bcoeff_grad "real list list list" | Acoeff_grad "real list list list list"

definition pgradient :: "jastrow \<Rightarrow> (string \<times> tensor) list" where
  "pgradient self = [(''bcoeff'', Bcoeff_grad (bvalues self)), (''acoeff'', Acoeff_grad (avalues self))]"

text \<open>
  \<^verbatim>\<open>recompute\<close>. The loop over the particles fills the partial sums; each round calls
  \<^verbatim>\<open>_a_update\<close> and \<^verbatim>\<open>_b_update\<close> with the all-true mask.
\<close>

fun recompute_partials :: "jastrow \<Rightarrow> configs \<Rightarrow> bool list \<Rightarrow> nat list \<Rightarrow> error + jastrow" where
  "recompute_partials self cfg notmask [] = Inr self"
| "recompute_partials self cfg notmask (e # es) =
     (let epos = electron cfg e
      in bindE (a_update self e epos notmask) (\<lambda>a.
           let self1 = self\<lparr>a_partial := (a_partial self)[e := a]\<rparr>
           in bindE (b_update self1 e epos notmask) (\<lambda>b.
                recompute_partials (self1\<lparr>b_partial := (b_partial self1)[e := b]\<rparr>)
                  cfg notmask es)))"

text \<open>
  \<^verbatim>\<open>configs.configs.shape[1]\<close>. A nested list with no walker has lost the length of its
  second axis; the model reads it as 0 there.
\<close>

definition shape1 :: "'a list list \<Rightarrow> nat" where
  "shape1 a = (case a of [] \<Rightarrow> 0 | row # _ \<Rightarrow> length row)"

text \<open>
  The two loops that fill \<^verbatim>\<open>_bvalues\<close> and \<^verbatim>\<open>_avalues\<close> write every entry once, with a
  value that does not depend on the array written: they are the tables below.
\<close>

definition recompute_bvalues :: "jastrow \<Rightarrow> configs \<Rightarrow> real list list list" where
  "recompute_bvalues self cfg =
     (let nup = fst (nelec (mol self));
          d_upup = dist_matrix (map (take nup) cfg);
          d_updown = pairwise_dist (map (take nup) cfg) (map (drop nup) cfg);
          d_downdown = dist_matrix (map (drop nup) cfg)
      in map (\<lambda>w. map (\<lambda>b. map (\<lambda>d. sum_list (map2 (fvalue b) (d ! w) (map vnorm (d ! w))))
           [d_upup, d_updown, d_downdown]) (b_basis self)) [0..<length cfg])"

definition recompute_avalues :: "jastrow \<Rightarrow> configs \<Rightarrow> real list list list list" where
  "recompute_avalues self cfg =
     (let nup = fst (nelec (mol self));
          di = map (\<lambda>e. dist_i_fixed (atom_coords (mol self)) (electron cfg e)) [0..<shape1 cfg];
          ri = map (map (map vnorm)) di
      in map (\<lambda>w. map (\<lambda>i. map (\<lambda>a.
           let avals = map2 (map2 (map2 (fvalue a))) di ri
           in [sum_list (map (\<lambda>av. av ! w ! i) (take nup avals)),
               sum_list (map (\<lambda>av. av ! w ! i) (drop nup avals))])
           (a_basis self)) [0..<natm (mol self)]) [0..<length cfg])"

definition recompute :: "jastrow \<Rightarrow> configs \<Rightarrow> error + ((int \<times> real list) \<times> jastrow)" where
  "recompute self cfg =
     (let nconf = length cfg;
          nel = shape1 cfg;
          nexpand = length (b_basis self);
          aexpand = length (a_basis self);
          self0 = self\<lparr>configscurrent := cfg,
                   bvalues := replicate nconf (replicate nexpand (replicate 3 0)),
                   avalues := replicate nconf (replicate (natm (mol self))
                                (replicate aexpand (replicate 2 0))),
                   a_partial := replicate nel (replicate nconf (replicate (natm (mol self))
                                (replicate aexpand 0))),
                   b_partial := replicate nel (replicate nconf (replicate nexpand
                                (replicate 2 0)))\<rparr>;
          notmask = replicate nconf True
      in bindE (recompute_partials self0 cfg notmask [0..<nel]) (\<lambda>self1.
           let self2 = self1\<lparr>bvalues := recompute_bvalues self1 cfg\<rparr>;
               self3 = self2\<lparr>avalues := recompute_avalues self2 cfg\<rparr>;
               u = map (\<lambda>bw. dot2 bw (bcoeff self3)) (bvalues self3);
               u = map2 (+) u (map (\<lambda>aw. dot3 aw (acoeff self3)) (avalues self3))
           in Inr ((1, u), self3)))"

section \<open>Gradient and Laplacian\<close>


definition vscale :: "real \<Rightarrow> vec \<Rightarrow> vec" where
  "vscale c a = (case a of (ax, ay, az) \<Rightarrow> (c * ax, c * ay, c * az))"









section \<open>A small engine\<close>

text \<open>
  Two walkers, two spin-up particles and one spin-down particle, one ion at the origin and
  one basis function of each kind, the squared distance. \<open>ex_engine\<close> is the engine
  \<^verbatim>\<open>recompute\<close> binds to \<open>ex_configs\<close>; the theorems below are instantiated on it.
\<close>

definition ex_basis :: basis_function where
  "ex_basis = \<lparr>fvalue = (\<lambda>d r. r * r), fgradient = (\<lambda>d r. vscale 2 d),
     fgradient_laplacian = (\<lambda>d r. (vscale 2 d, (2, 2, 2)))\<rparr>"

definition ex_mol :: molecule where
  "ex_mol = \<lparr>nelec = (2, 1), natm = 1, atom_coords = [(0, 0, 0)]\<rparr>"

definition ex_configs :: configs where
  "ex_configs = [[(1, 0, 0), (0, 1, 0), (0, 0, 2)], [(1, 1, 0), (0, 1, 1), (3, 0, 0)]]"

definition ex_unbound :: jastrow where
  "ex_unbound = \<lparr>mol = ex_mol, nelec_total = 3, a_basis = [ex_basis], b_basis = [ex_basis],
     bcoeff = [[1, 2, 3]], acoeff = [[[5, 7]]], configscurrent = [], bvalues = [], avalues = [],
     a_partial = [], b_partial = []\<rparr>"

definition ex_engine :: jastrow where
  "ex_engine = ex_unbound\<lparr>configscurrent := ex_configs,
     bvalues := [[[2, 10, 0]], [[2, 16, 0]]],
     avalues := [[[[2, 4]]], [[[4, 9]]]],
     a_partial := [[[[1]], [[2]]], [[[1]], [[2]]], [[[4]], [[9]]]],
     b_partial := [[[[2, 5]], [[2, 5]]], [[[2, 5]], [[2, 11]]], [[[10, 0]], [[16, 0]]]]\<rparr>"

definition ex_epos :: "vec list" where
  "ex_epos = [(2, 0, 0), (0, 0, 1)]"

definition ex_moved :: jastrow where
  "ex_moved = ex_engine\<lparr>
     configscurrent := [[(1, 0, 0), (0, 1, 0), (0, 0, 2)], [(1, 1, 0), (0, 0, 1), (3, 0, 0)]],
     bvalues := [[[2, 10, 0]], [[3, 15, 0]]],
     avalues := [[[[2, 4]]], [[[3, 9]]]],
     a_partial := [[[[1]], [[2]]], [[[1]], [[1]]], [[[4]], [[9]]]],
     b_partial := [[[[2, 5]], [[3, 5]]], [[[2, 5]], [[3, 10]]], [[[10, 0]], [[15, 0]]]]\<rparr>"

text \<open>The engine after the same move accepted by both walkers.\<close>

definition ex_moved_all :: jastrow where
  "ex_moved_all = ex_engine\<lparr>
     configscurrent := [[(1, 0, 0), (2, 0, 0), (0, 0, 2)], [(1, 1, 0), (0, 0, 1), (3, 0, 0)]],
     bvalues := [[[1, 13, 0]], [[3, 15, 0]]],
     avalues := [[[[5, 4]]], [[[3, 9]]]],
     a_partial := [[[[1]], [[2]]], [[[4]], [[1]]], [[[4]], [[9]]]],
     b_partial := [[[[1, 5]], [[3, 5]]], [[[1, 8]], [[3, 10]]], [[[13, 0]], [[15, 0]]]]\<rparr>"









section \<open>Shapes and invariants\<close>

text \<open>The shape of an array of two, three and four axes.\<close>

definition has_shape2 :: "'a list list \<Rightarrow> nat \<Rightarrow> nat \<Rightarrow> bool" where
  "has_shape2 a n1 n2 = (length a = n1 \<and> list_all (\<lambda>r. length r = n2) a)"

definition has_shape3 :: "'a list list list \<Rightarrow> nat \<Rightarrow> nat \<Rightarrow> nat \<Rightarrow> bool" where
  "has_shape3 a n1 n2 n3 = (length a = n1 \<and> list_all (\<lambda>r. has_shape2 r n2 n3) a)"

definition has_shape4 :: "'a list list list list \<Rightarrow> nat \<Rightarrow> nat \<Rightarrow> nat \<Rightarrow> nat \<Rightarrow> bool" where
  "has_shape4 a n1 n2 n3 n4 = (length a = n1 \<and> list_all (\<lambda>r. has_shape3 r n2 n3 n4) a)"

text \<open>
  The shapes \<^verbatim>\<open>__init__\<close> and \<^verbatim>\<open>recompute\<close> give the fields of an engine bound to an
  ensemble of \<open>length (configscurrent self)\<close> walkers.
\<close>

definition shapes_ok :: "jastrow \<Rightarrow> bool" where
  "shapes_ok self =
     (let nconf = length (configscurrent self);
          nel = nelec_total self;
          na = natm (mol self);
          ka = length (a_basis self);
          kb = length (b_basis self)
      in nel = fst (nelec (mol self)) + snd (nelec (mol self)) \<and>
         length (atom_coords (mol self)) = na \<and>
         has_shape2 (configscurrent self) nconf nel \<and>
         has_shape2 (bcoeff self) kb 3 \<and>
         has_shape3 (acoeff self) na ka 2 \<and>
         has_shape3 (bvalues self) nconf kb 3 \<and>
         has_shape4 (avalues self) nconf na ka 2 \<and>
         has_shape4 (a_partial self) nel nconf na ka \<and>
         has_shape4 (b_partial self) nel nconf kb 2)"

text \<open>The value of a basis function at the separation of two positions.\<close>

definition pairv :: "basis_function \<Rightarrow> vec \<Rightarrow> vec \<Rightarrow> real" where
  "pairv b p q = fvalue b (vsub p q) (vnorm (vsub p q))"






text \<open>
  The tables \<^verbatim>\<open>_a_update\<close> and \<^verbatim>\<open>_b_update\<close> compute, for every walker: the masked calls
  return the rows of the masked walkers.
\<close>

definition a_table :: "jastrow \<Rightarrow> vec list \<Rightarrow> real list list list" where
  "a_table self epos =
     map (\<lambda>p. map (\<lambda>ion. map (\<lambda>a. pairv a p ion) (a_basis self)) (atom_coords (mol self))) epos"

definition b_split :: "basis_function \<Rightarrow> nat \<Rightarrow> vec list \<Rightarrow> vec \<Rightarrow> real list" where
  "b_split b sep others p =
     [sum_list (take sep (map (pairv b p) others)), sum_list (drop sep (map (pairv b p) others))]"

definition others_of :: "nat \<Rightarrow> vec list \<Rightarrow> vec list" where
  "others_of e row = take e row @ drop (Suc e) row"

definition b_table :: "jastrow \<Rightarrow> nat \<Rightarrow> vec list \<Rightarrow> real list list list" where
  "b_table self e epos =
     (let nup = fst (nelec (mol self)); sep = nup - (if e < nup then 1 else 0)
      in map2 (\<lambda>row p. map (\<lambda>b. b_split b sep (others_of e row) p) (b_basis self))
           (configscurrent self) epos)"

text \<open>
  The pair values between a position per walker and the other particles of that walker, as
  \<^verbatim>\<open>_update_b_partial\<close> computes them for one basis function.
\<close>

definition pv_table :: "basis_function \<Rightarrow> nat \<Rightarrow> configs \<Rightarrow> vec list \<Rightarrow> real list list" where
  "pv_table b e cfg ps = map2 (\<lambda>row p. map (pairv b p) (others_of e row)) cfg ps"

text \<open>
  What \<^verbatim>\<open>updateinternals\<close> leaves, entry by entry, when it moves particle \<open>e\<close> to \<open>epos\<close>
  for the walkers of the mask \<open>msk\<close>; \<open>edown\<close> is the spin slot of \<open>e\<close> and \<open>sep\<close> the
  number of spin-up particles other than \<open>e\<close>.
\<close>

definition update_spec :: "jastrow \<Rightarrow> nat \<Rightarrow> vec list \<Rightarrow> bool list \<Rightarrow> nat \<Rightarrow> nat \<Rightarrow> jastrow \<Rightarrow> bool" where
  "update_spec self e epos msk edown sep self' =
    (mol self' = mol self \<and> nelec_total self' = nelec_total self \<and>
     a_basis self' = a_basis self \<and> b_basis self' = b_basis self \<and>
     bcoeff self' = bcoeff self \<and> acoeff self' = acoeff self \<and>
     length (configscurrent self') = length (configscurrent self) \<and> shapes_ok self' \<and>
     (\<forall>w < length (configscurrent self). \<forall>i < natm (mol self). \<forall>k < length (a_basis self). \<forall>s < 2.
        avalues self' ! w ! i ! k ! s =
          (if selected msk w \<and> s = edown
           then avalues self ! w ! i ! k ! s +
                  (pairv (a_basis self ! k) (epos ! w) (atom_coords (mol self) ! i) -
                   a_partial self ! e ! w ! i ! k)
           else avalues self ! w ! i ! k ! s)) \<and>
     (\<forall>w < length (configscurrent self). \<forall>l < length (b_basis self). \<forall>c < 3.
        bvalues self' ! w ! l ! c =
          (if selected msk w \<and> edown \<le> c \<and> c < edown + 2
           then bvalues self ! w ! l ! c +
                  (b_split (b_basis self ! l) sep (others_of e (configscurrent self ! w)) (epos ! w)
                     ! (c - edown) -
                   b_partial self ! e ! w ! l ! (c - edown))
           else bvalues self ! w ! l ! c)) \<and>
     (\<forall>j < nelec_total self. \<forall>w < length (configscurrent self). \<forall>i < natm (mol self).
        \<forall>k < length (a_basis self).
        a_partial self' ! j ! w ! i ! k =
          (if j = e \<and> selected msk w
           then pairv (a_basis self ! k) (epos ! w) (atom_coords (mol self) ! i)
           else a_partial self ! j ! w ! i ! k)) \<and>
     (\<forall>j < nelec_total self. \<forall>w < length (configscurrent self). \<forall>l < length (b_basis self). \<forall>s < 2.
        b_partial self' ! j ! w ! l ! s =
           (if selected msk w then
              (if j = e then b_split (b_basis self ! l) sep (others_of e (configscurrent self ! w))
                               (epos ! w) ! s
               else if s = edown then
                 b_partial self ! j ! w ! l ! s +
                   (pairv (b_basis self ! l) (epos ! w) (configscurrent self ! w ! j) -
                    pairv (b_basis self ! l) (configscurrent self ! w ! e)
                      (configscurrent self ! w ! j))
               else b_partial self ! j ! w ! l ! s)
            else b_partial self ! j ! w ! l ! s)) \<and>
     (\<forall>w < length (configscurrent self). \<forall>j < nelec_total self.
        configscurrent self' ! w ! j =
          (if selected msk w \<and> j = e then epos ! w else configscurrent self ! w ! j)))"




section \<open>Masks and indexed assignment\<close>

lemma bindE_Inr [simp]: "bindE (Inr x) f = f x"
  by (simp add: bindE_def)

lemma bindE_Inl [simp]: "bindE (Inl err) f = Inl err"
  by (simp add: bindE_def)

lemma bindE_eq_Inr: "bindE m f = Inr y \<longleftrightarrow> (\<exists>x. m = Inr x \<and> f x = Inr y)"
  by (cases m) simp_all


lemma bool_index_eq_Inr:
  "bool_index xs msk = Inr ys \<longleftrightarrow> (length msk = length xs \<or> msk = []) \<and> ys = gather xs msk"
  by (auto simp: bool_index_def)

lemma bool_index_bad:
  "length msk \<noteq> length xs \<Longrightarrow> msk \<noteq> [] \<Longrightarrow> bool_index xs msk = Inl IndexError"
  by (simp add: bool_index_def)

lemma gather_Nil [simp]: "gather xs [] = []"
  by (cases xs) simp_all

lemma bool_index_Nil [simp]: "bool_index xs [] = Inr []"
  by (simp add: bool_index_def)

lemma selected_nth: "w < length msk \<Longrightarrow> selected msk w = msk ! w"
  by (simp add: selected_def)

lemma selected_Nil [simp]: "selected [] w = False"
  by (simp add: selected_def)

lemma gather_map: "gather (map f xs) msk = map f (gather xs msk)"
  by (induction xs msk rule: gather.induct) simp_all

lemma length_gather: "length xs = length msk \<Longrightarrow> length (gather xs msk) = length (filter id msk)"
  by (induction xs msk rule: gather.induct) simp_all


lemma rank_all_true: "i \<le> n \<Longrightarrow> rank (replicate n True) i = i"
  by (simp add: rank_def min_def)

lemma rank_0 [simp]: "rank msk 0 = 0"
  by (simp add: rank_def)

lemma rank_Cons_Suc: "rank (m # ms) (Suc i) = (if m then Suc (rank ms i) else rank ms i)"
  by (simp add: rank_def)

lemma gather_nth_rank:
  "length xs = length msk \<Longrightarrow> i < length msk \<Longrightarrow> msk ! i \<Longrightarrow> gather xs msk ! rank msk i = xs ! i"
proof (induction xs msk arbitrary: i rule: gather.induct)
  case (1 x xs m ms)
  then show ?case
    by (cases i) (simp_all add: rank_Cons_Suc)
qed simp_all

lemma rank_less:
  "i < length msk \<Longrightarrow> msk ! i \<Longrightarrow> rank msk i < length (filter id msk)"
proof (induction msk arbitrary: i)
  case (Cons m ms)
  then show ?case
    by (cases i) (auto simp: rank_Cons_Suc)
qed simp

lemma gather_const_true: "length ys = length xs \<Longrightarrow> gather xs (map (\<lambda>_. True) ys) = xs"
  by (induction xs arbitrary: ys) (auto simp: length_Suc_conv)

lemma not_e_mask_Suc:
  "not_e_mask (Suc m) e =
     (0 \<noteq> e) # (case e of 0 \<Rightarrow> map (\<lambda>_. True) [0..<m] | Suc e' \<Rightarrow> not_e_mask m e')"
proof -
  have "[0..<Suc m] = 0 # map Suc [0..<m]"
    by (simp add: upt_conv_Cons map_Suc_upt del: upt_Suc)
  then show ?thesis
    by (cases e) (simp_all add: not_e_mask_def comp_def del: upt_Suc)
qed

lemma gather_not_e: "length row = n \<Longrightarrow> gather row (not_e_mask n e) = take e row @ drop (Suc e) row"
proof (induction row arbitrary: n e)
  case Nil
  then show ?case by (simp add: not_e_mask_def)
next
  case (Cons x xs)
  then have n: "n = Suc (length xs)" by simp
  show ?case
  proof (cases e)
    case 0
    then show ?thesis
      using gather_const_true [of "[0..<length xs]" xs] by (simp add: n not_e_mask_Suc)
  next
    case (Suc e')
    then show ?thesis
      using Cons.IH [of "length xs" e'] by (simp add: n not_e_mask_Suc)
  qed
qed

lemma rank_not_e: "j \<le> n \<Longrightarrow> rank (not_e_mask n e) j = (if j \<le> e then j else j - 1)"
proof (induction j)
  case 0
  then show ?case by simp
next
  case (Suc j)
  then have "take (Suc j) (not_e_mask n e) = take j (not_e_mask n e) @ [j \<noteq> e]"
    by (simp add: take_Suc_conv_app_nth not_e_mask_def)
  with Suc show ?case
    by (auto simp: rank_def)
qed

lemma length_mapi [simp]: "length (mapi f n xs) = length xs"
  by (induction xs arbitrary: n) simp_all

lemma nth_mapi: "i < length xs \<Longrightarrow> mapi f n xs ! i = f (n + i) (xs ! i)"
proof (induction xs arbitrary: n i)
  case (Cons x xs)
  then show ?case by (cases i) simp_all
qed simp

lemma nth_mapi0: "i < length xs \<Longrightarrow> mapi f 0 xs ! i = f i (xs ! i)"
  using nth_mapi [of i xs f 0] by simp

lemma mapi_id: "(\<And>i x. f i x = x) \<Longrightarrow> mapi f n xs = xs"
  by (induction xs arbitrary: n) simp_all

lemma length_upd2 [simp]: "length (upd2 a P f) = length a"
  by (simp add: upd2_def)

lemma length_upd3 [simp]: "length (upd3 a P f) = length a"
  by (simp add: upd3_def)

lemma length_upd4 [simp]: "length (upd4 a P f) = length a"
  by (simp add: upd4_def)

lemma upd2_nth: "i < length a \<Longrightarrow>
    upd2 a P f ! i = mapi (\<lambda>j x. if P i j then f i j x else x) 0 (a ! i)"
  by (simp add: upd2_def nth_mapi0)

lemma upd3_nth: "i < length a \<Longrightarrow>
    upd3 a P f ! i = mapi (\<lambda>j. mapi (\<lambda>k x. if P i j k then f i j k x else x) 0) 0 (a ! i)"
  by (simp add: upd3_def nth_mapi0)

lemma upd4_nth: "i < length a \<Longrightarrow>
    upd4 a P f ! i =
      mapi (\<lambda>j. mapi (\<lambda>k. mapi (\<lambda>l x. if P i j k l then f i j k l x else x) 0) 0) 0 (a ! i)"
  by (simp add: upd4_def nth_mapi0)

lemma upd4_nth2: "i < length a \<Longrightarrow> j < length (a ! i) \<Longrightarrow>
    upd4 a P f ! i ! j = mapi (\<lambda>k. mapi (\<lambda>l x. if P i j k l then f i j k l x else x) 0) 0 (a ! i ! j)"
  by (simp add: upd4_nth nth_mapi0)

lemma upd4_nth4:
  "i < length a \<Longrightarrow> j < length (a ! i) \<Longrightarrow> k < length (a ! i ! j) \<Longrightarrow> l < length (a ! i ! j ! k) \<Longrightarrow>
    upd4 a P f ! i ! j ! k ! l =
      (if P i j k l then f i j k l (a ! i ! j ! k ! l) else a ! i ! j ! k ! l)"
  by (simp add: upd4_nth2 nth_mapi0)

lemma upd3_nth3:
  "i < length a \<Longrightarrow> j < length (a ! i) \<Longrightarrow> k < length (a ! i ! j) \<Longrightarrow>
    upd3 a P f ! i ! j ! k = (if P i j k then f i j k (a ! i ! j ! k) else a ! i ! j ! k)"
  by (simp add: upd3_nth nth_mapi0)

lemma upd2_nth2:
  "i < length a \<Longrightarrow> j < length (a ! i) \<Longrightarrow>
    upd2 a P f ! i ! j = (if P i j then f i j (a ! i ! j) else a ! i ! j)"
  by (simp add: upd2_nth nth_mapi0)

lemma length_upd4_1: "i < length a \<Longrightarrow> length (upd4 a P f ! i) = length (a ! i)"
  by (simp add: upd4_nth)

lemma length_upd4_2: "i < length a \<Longrightarrow> j < length (a ! i) \<Longrightarrow>
    length (upd4 a P f ! i ! j) = length (a ! i ! j)"
  by (simp add: upd4_nth2)

lemma length_upd4_3: "i < length a \<Longrightarrow> j < length (a ! i) \<Longrightarrow> k < length (a ! i ! j) \<Longrightarrow>
    length (upd4 a P f ! i ! j ! k) = length (a ! i ! j ! k)"
  by (simp add: upd4_nth2 nth_mapi0)

lemma length_upd3_1: "i < length a \<Longrightarrow> length (upd3 a P f ! i) = length (a ! i)"
  by (simp add: upd3_nth)

lemma length_upd3_2: "i < length a \<Longrightarrow> j < length (a ! i) \<Longrightarrow>
    length (upd3 a P f ! i ! j) = length (a ! i ! j)"
  by (simp add: upd3_nth nth_mapi0)

lemma length_upd2_1: "i < length a \<Longrightarrow> length (upd2 a P f ! i) = length (a ! i)"
  by (simp add: upd2_nth)

lemma upd4_frame0:
  assumes "i < length a" and "\<And>j k l. \<not> P i j k l"
  shows "upd4 a P f ! i = a ! i"
  using assms by (simp add: upd4_nth mapi_id)

lemma upd4_frame1:
  assumes "i < length a" and "j < length (a ! i)" and "\<And>k l. \<not> P i j k l"
  shows "upd4 a P f ! i ! j = a ! i ! j"
  using assms by (simp add: upd4_nth2 mapi_id)

lemma upd3_frame0:
  assumes "i < length a" and "\<And>j k. \<not> P i j k"
  shows "upd3 a P f ! i = a ! i"
  using assms by (simp add: upd3_nth mapi_id)

lemma upd2_frame0:
  assumes "i < length a" and "\<And>j. \<not> P i j"
  shows "upd2 a P f ! i = a ! i"
  using assms by (simp add: upd2_nth mapi_id)

lemma a_update_bad:
  "length msk \<noteq> length epos \<Longrightarrow> msk \<noteq> [] \<Longrightarrow> a_update self e epos msk = Inl IndexError"
  by (simp add: a_update_def bool_index_bad)

lemma b_update_bad:
  "length msk \<noteq> length (configscurrent self) \<Longrightarrow> msk \<noteq> [] \<Longrightarrow>
     b_update self e epos msk = Inl IndexError"
  by (simp add: b_update_def bool_index_bad Let_def)

section \<open>Evaluation on the small engine\<close>

lemmas ex_defs = ex_basis_def ex_mol_def ex_configs_def ex_unbound_def ex_engine_def ex_epos_def
  ex_moved_def ex_moved_all_def

lemmas eval_defs = selected_def recompute_def recompute_partials.simps a_update_def b_update_def
  bool_index_def bool_index_ax1_def shape1_def electron_def dist_i_def dist_i_fixed_def
  vsub_def vnorm_def not_e_mask_def recompute_bvalues_def recompute_avalues_def dist_matrix_def
  pairwise_dist_def dot1_def dot2_def dot3_def Let_def upt_rec numeral_nat
  updateinternals_def update_b_partial_def update_b_partial_round_def index_e_mask_def
  upd2_def upd3_def upd4_def mapi.simps sub1_def sub2_def sub3_def rank_def move_def
  testvalue_def value_wf_def

lemma ex_recompute: "recompute ex_unbound ex_configs = Inr ((1, [60, 117]), ex_engine)"
  by (simp add: ex_defs eval_defs)

lemma ex_update: "updateinternals ex_engine 1 ex_epos (Some [False, True]) = Inr ex_moved"
  by (simp add: ex_defs eval_defs)

lemma ex_update_all: "updateinternals ex_engine 1 ex_epos (Some [True, True]) = Inr ex_moved_all"
  by (simp add: ex_defs eval_defs)

lemma ex_testvalue_all:
  "testvalue ex_engine 1 ex_epos (Some [True, True]) = Inr ([exp 20, exp (- 6)], ex_engine)"
  by (simp add: ex_defs eval_defs)

section \<open>What the update computes, entry by entry\<close>

lemma gather_zip: "gather (zip xs ys) m = zip (gather xs m) (gather ys m)"
proof (induction xs m arbitrary: ys rule: gather.induct)
  case (1 x xs m ms)
  then show ?case by (cases ys) simp_all
qed simp_all

lemma gather_map2: "map2 f (gather xs m) (gather ys m) = gather (map2 f xs ys) m"
  by (simp add: gather_zip gather_map)


lemma has_shape3_nth: "has_shape3 a n1 n2 n3 \<Longrightarrow> i < n1 \<Longrightarrow> has_shape2 (a ! i) n2 n3"
  by (auto simp: has_shape3_def list_all_length)

lemma has_shape4_nth: "has_shape4 a n1 n2 n3 n4 \<Longrightarrow> i < n1 \<Longrightarrow> has_shape3 (a ! i) n2 n3 n4"
  by (auto simp: has_shape4_def list_all_length)

lemma has_shape2_len: "has_shape2 a n1 n2 \<Longrightarrow> length a = n1"
  by (simp add: has_shape2_def)

lemma has_shape3_len: "has_shape3 a n1 n2 n3 \<Longrightarrow> length a = n1"
  by (simp add: has_shape3_def)

lemma has_shape4_len: "has_shape4 a n1 n2 n3 n4 \<Longrightarrow> length a = n1"
  by (simp add: has_shape4_def)




lemma map2_map_same: "map2 f xs (map g xs) = map (\<lambda>x. f x (g x)) xs"
  by (induction xs) simp_all

lemma map2_map_both: "map2 f (map g xs) (map h xs) = map (\<lambda>x. f (g x) (h x)) xs"
  by (induction xs) simp_all

lemma list_all_gather: "list_all P xs \<Longrightarrow> list_all P (gather xs m)"
  by (induction xs m rule: gather.induct) simp_all

lemma a_update_char:
  "length msk = length epos \<Longrightarrow> a_update self e epos msk = Inr (gather (a_table self epos) msk)"
  by (simp add: a_update_def bool_index_def Let_def dist_i_fixed_def a_table_def pairv_def
      map2_map_same gather_map comp_def)


lemma dist_i_char:
  "map2 (\<lambda>dw rw. F (map2 G dw rw)) (dist_i cs ps) (map (map vnorm) (dist_i cs ps)) =
     map2 (\<lambda>row p. F (map (\<lambda>q. G (vsub p q) (vnorm (vsub p q))) row)) cs ps"
proof (induction cs arbitrary: ps)
  case (Cons c cs)
  then show ?case
    by (cases ps) (simp_all add: dist_i_def map2_map_both comp_def)
qed (simp add: dist_i_def)

lemma b_core:
  "map2 (\<lambda>dw rw. map (\<lambda>b. [sum_list (take sep (map2 (fvalue b) dw rw)),
                               sum_list (drop sep (map2 (fvalue b) dw rw))]) bs)
      (dist_i cs ps) (map (map vnorm) (dist_i cs ps)) =
   map2 (\<lambda>row p. map (\<lambda>b. b_split b sep row p) bs) cs ps"
proof (induction cs arbitrary: ps)
  case (Cons c cs)
  then show ?case
    by (cases ps) (simp_all add: dist_i_def map2_map_both comp_def b_split_def pairv_def [abs_def])
qed (simp add: dist_i_def)

lemma b_update_char:
  assumes "length msk = length (configscurrent self)" "length msk = length epos"
    and "list_all (\<lambda>row. length row = nelec_total self) (configscurrent self)"
  shows "b_update self e epos msk = Inr (gather (b_table self e epos) msk)"
proof -
  let ?cfg = "configscurrent self"
  let ?ne = "not_e_mask (nelec_total self) e"
  have len: "length ?ne = nelec_total self"
    by (simp add: not_e_mask_def)
  have rows: "list_all (\<lambda>row. length row = length ?ne) (gather ?cfg msk)"
    using assms(3) by (simp add: len list_all_gather)
  have others: "map (\<lambda>row. gather row ?ne) (gather ?cfg msk) = gather (map (others_of e) ?cfg) msk"
    using assms(3)
    by (simp add: gather_map [symmetric] others_of_def list_all_iff gather_not_e cong: map_cong)
  have 1: "bool_index ?cfg msk = Inr (gather ?cfg msk)"
    using assms(1) by (simp add: bool_index_def)
  have 2: "bool_index_ax1 (gather ?cfg msk) ?ne = Inr (gather (map (others_of e) ?cfg) msk)"
    using rows by (simp add: bool_index_ax1_def others)
  have 3: "bool_index epos msk = Inr (gather epos msk)"
    using assms(2) by (simp add: bool_index_def)
  have 4: "gather (map (others_of e) ?cfg) msk = map (others_of e) (gather ?cfg msk)"
    by (simp add: gather_map)
  show ?thesis
    unfolding b_update_def Let_def 1 2 3 bindE_Inr b_core b_table_def 4
    by (simp add: gather_zip zip_map1 case_prod_unfold gather_map comp_def)
qed

lemma list_all_mapi: "(\<And>i x. Q' (f i x) = Q x) \<Longrightarrow> list_all Q' (mapi f n xs) = list_all Q xs"
  by (induction xs arbitrary: n) simp_all

lemma has_shape2_mapi2: "has_shape2 (mapi (\<lambda>j. mapi (g j) 0) 0 a) n1 n2 = has_shape2 a n1 n2"
  unfolding has_shape2_def
  using list_all_mapi [of "\<lambda>r. length r = n2" "\<lambda>j. mapi (g j) 0" "\<lambda>r. length r = n2" 0 a] by simp

lemma has_shape3_mapi3:
  "has_shape3 (mapi (\<lambda>i. mapi (\<lambda>j. mapi (g i j) 0) 0) 0 a) n1 n2 n3 = has_shape3 a n1 n2 n3"
  unfolding has_shape3_def
  using list_all_mapi [of "\<lambda>r. has_shape2 r n2 n3" "\<lambda>i. mapi (\<lambda>j. mapi (g i j) 0) 0"
      "\<lambda>r. has_shape2 r n2 n3" 0 a]
  by (simp add: has_shape2_mapi2)

lemma has_shape4_mapi4:
  "has_shape4 (mapi (\<lambda>i. mapi (\<lambda>j. mapi (\<lambda>k. mapi (g i j k) 0) 0) 0) 0 a) n1 n2 n3 n4 =
     has_shape4 a n1 n2 n3 n4"
  unfolding has_shape4_def
  using list_all_mapi [of "\<lambda>r. has_shape3 r n2 n3 n4"
      "\<lambda>i. mapi (\<lambda>j. mapi (\<lambda>k. mapi (g i j k) 0) 0) 0" "\<lambda>r. has_shape3 r n2 n3 n4" 0 a]
  by (simp add: has_shape3_mapi3)

lemma has_shape2_upd2 [simp]: "has_shape2 (upd2 a P f) n1 n2 = has_shape2 a n1 n2"
  by (simp add: upd2_def has_shape2_mapi2)

lemma has_shape3_upd3 [simp]: "has_shape3 (upd3 a P f) n1 n2 n3 = has_shape3 a n1 n2 n3"
  by (simp add: upd3_def has_shape3_mapi3)

lemma has_shape4_upd4 [simp]: "has_shape4 (upd4 a P f) n1 n2 n3 n4 = has_shape4 a n1 n2 n3 n4"
  by (simp add: upd4_def has_shape4_mapi4)

lemma has_shape4_D:
  assumes "has_shape4 a n1 n2 n3 n4"
  shows "length a = n1"
    and "i < n1 \<Longrightarrow> length (a ! i) = n2"
    and "i < n1 \<Longrightarrow> j < n2 \<Longrightarrow> length (a ! i ! j) = n3"
    and "i < n1 \<Longrightarrow> j < n2 \<Longrightarrow> k < n3 \<Longrightarrow> length (a ! i ! j ! k) = n4"
  using assms by (auto simp: has_shape4_def has_shape3_def has_shape2_def list_all_length)

lemma has_shape3_D:
  assumes "has_shape3 a n1 n2 n3"
  shows "length a = n1"
    and "i < n1 \<Longrightarrow> length (a ! i) = n2"
    and "i < n1 \<Longrightarrow> j < n2 \<Longrightarrow> length (a ! i ! j) = n3"
  using assms by (auto simp: has_shape3_def has_shape2_def list_all_length)

lemma has_shape2_D:
  assumes "has_shape2 a n1 n2"
  shows "length a = n1"
    and "i < n1 \<Longrightarrow> length (a ! i) = n2"
  using assms by (auto simp: has_shape2_def list_all_length)

lemma upd4_at:
  assumes "has_shape4 a n1 n2 n3 n4" "i < n1" "j < n2" "k < n3" "l < n4"
  shows "upd4 a P f ! i ! j ! k ! l =
           (if P i j k l then f i j k l (a ! i ! j ! k ! l) else a ! i ! j ! k ! l)"
  using assms by (simp add: upd4_nth4 has_shape4_D)

lemma upd3_at:
  assumes "has_shape3 a n1 n2 n3" "i < n1" "j < n2" "k < n3"
  shows "upd3 a P f ! i ! j ! k = (if P i j k then f i j k (a ! i ! j ! k) else a ! i ! j ! k)"
  using assms by (simp add: upd3_nth3 has_shape3_D)

lemma upd2_at:
  assumes "has_shape2 a n1 n2" "i < n1" "j < n2"
  shows "upd2 a P f ! i ! j = (if P i j then f i j (a ! i ! j) else a ! i ! j)"
  using assms by (simp add: upd2_nth2 has_shape2_D)

lemma d_core:
  "map2 (map2 (fvalue b)) (dist_i cs ps) (map (map vnorm) (dist_i cs ps)) =
   map2 (\<lambda>row p. map (pairv b p) row) cs ps"
proof (induction cs arbitrary: ps)
  case (Cons c cs)
  then show ?case
    by (cases ps) (simp_all add: dist_i_def map2_map_both comp_def pairv_def [abs_def])
qed (simp add: dist_i_def)

lemma length_sub1: "length (sub1 xs ys) = min (length xs) (length ys)"
  by (simp add: sub1_def)

lemma sub1_nth: "i < length xs \<Longrightarrow> i < length ys \<Longrightarrow> sub1 xs ys ! i = xs ! i - ys ! i"
  by (simp add: sub1_def)

lemma sub2_nth: "i < length xs \<Longrightarrow> i < length ys \<Longrightarrow> sub2 xs ys ! i = sub1 (xs ! i) (ys ! i)"
  by (simp add: sub2_def)

lemma sub3_nth: "i < length xs \<Longrightarrow> i < length ys \<Longrightarrow> sub3 xs ys ! i = sub2 (xs ! i) (ys ! i)"
  by (simp add: sub3_def)

lemma sub2_gather: "sub2 (gather xs m) (gather ys m) = gather (sub2 xs ys) m"
  by (simp add: sub2_def gather_map2)

lemma sub3_gather: "sub3 (gather xs m) (gather ys m) = gather (sub3 xs ys) m"
  by (simp add: sub3_def gather_map2)

lemma others_of_nth:
  "j < length row \<Longrightarrow> j \<noteq> e \<Longrightarrow>
     others_of e row ! (if j \<le> e then j else j - 1) = row ! j"
  by (auto simp: others_of_def nth_append min_def)

lemma length_others_of: "e < length row \<Longrightarrow> length (others_of e row) = length row - 1"
  by (simp add: others_of_def)

lemma not_e_mask_nth: "j < n \<Longrightarrow> not_e_mask n e ! j = (j \<noteq> e)"
  by (simp add: not_e_mask_def)

lemma fold_rounds_at:
  assumes R_at: "\<And>l bp j w l' s. has_shape4 bp n1 n2 n3 n4 \<Longrightarrow> j < n1 \<Longrightarrow> w < n2 \<Longrightarrow> l' < n3 \<Longrightarrow>
        s < n4 \<Longrightarrow>
        R l bp ! j ! w ! l' ! s = (if l' = l then G l j w s (bp ! j ! w ! l' ! s) else bp ! j ! w ! l' ! s)"
    and R_shape: "\<And>l bp. has_shape4 (R l bp) n1 n2 n3 n4 = has_shape4 bp n1 n2 n3 n4"
    and bp: "has_shape4 bp n1 n2 n3 n4"
  shows "has_shape4 (fold R [0..<n] bp) n1 n2 n3 n4 \<and>
     (\<forall>j < n1. \<forall>w < n2. \<forall>l < n3. \<forall>s < n4.
        fold R [0..<n] bp ! j ! w ! l ! s =
          (if l < n then G l j w s (bp ! j ! w ! l ! s) else bp ! j ! w ! l ! s))"
proof (induction n)
  case 0
  show ?case using bp by simp
next
  case (Suc n)
  let ?bp = "fold R [0..<n] bp"
  from Suc have sh: "has_shape4 ?bp n1 n2 n3 n4" by blast
  have step: "fold R [0..<Suc n] bp = R n ?bp" by simp
  show ?case
    unfolding step
  proof (intro conjI allI impI)
    show "has_shape4 (R n ?bp) n1 n2 n3 n4" using sh by (simp add: R_shape)
  next
    fix j w l s
    assume "j < n1" "w < n2" "l < n3" "s < n4"
    then show "R n ?bp ! j ! w ! l ! s =
        (if l < Suc n then G l j w s (bp ! j ! w ! l ! s) else bp ! j ! w ! l ! s)"
      using R_at [OF sh, of j w l s n] Suc by (auto simp: less_Suc_eq)
  qed
qed

lemma round_shape:
  "has_shape4 (update_b_partial_round e msk not_e sep edown d r dold rold basis l bp) n1 n2 n3 n4 =
     has_shape4 bp n1 n2 n3 n4"
  by (simp add: update_b_partial_round_def Let_def)

lemma round_at:
  assumes "has_shape4 bp n1 n2 n3 2" "j < n1" "w < n2" "l' < n3" "s < 2"
    and "length not_e = n1"
  shows "update_b_partial_round e msk not_e sep edown d r dold rold basis l bp ! j ! w ! l' ! s =
     (if l' = l then
        (let bval = map2 (map2 (fvalue (basis ! l))) d r;
             bdiff = sub2 bval (map2 (map2 (fvalue (basis ! l))) dold rold);
             old = bp ! j ! w ! l' ! s
         in if selected msk w then
              (if j = e then (if s = 0 then sum_list (take sep (bval ! rank msk w))
                              else sum_list (drop sep (bval ! rank msk w)))
               else if not_e ! j \<and> s = edown then old + bdiff ! rank msk w ! rank not_e j
               else old)
            else old)
      else bp ! j ! w ! l' ! s)"
proof -
  have s01: "s = 0 \<or> s = 1" using assms(5) by auto
  show ?thesis
    using assms s01
    by (auto simp: update_b_partial_round_def Let_def selected_nth
        upd4_at [where ?n1.0 = n1 and ?n2.0 = n2 and ?n3.0 = n3 and ?n4.0 = 2])
qed

lemma pv_table_nth:
  "w < length cfg \<Longrightarrow> w < length ps \<Longrightarrow>
     pv_table b e cfg ps ! w = map (pairv b (ps ! w)) (others_of e (cfg ! w))"
  by (simp add: pv_table_def)

lemma length_pv_table: "length (pv_table b e cfg ps) = min (length cfg) (length ps)"
  by (simp add: pv_table_def)

lemma d_core_gather:
  "map2 (map2 (fvalue b)) (dist_i (gather (map (others_of e) cfg) msk) (gather ps msk))
      (map (map vnorm) (dist_i (gather (map (others_of e) cfg) msk) (gather ps msk))) =
   gather (pv_table b e cfg ps) msk"
  unfolding d_core gather_map2 pv_table_def
  by (simp add: zip_map1 case_prod_unfold comp_def)

lemma length_sub2: "length (sub2 xs ys) = min (length xs) (length ys)"
  by (simp add: sub2_def)

lemma update_b_partial_char:
  fixes self e epos msk
  defines "cfg \<equiv> configscurrent self"
    and "nel \<equiv> nelec_total self"
    and "kb \<equiv> length (b_basis self)"
    and "nup \<equiv> fst (nelec (mol self))"
  defines "sep \<equiv> nup - (if e < nup then 1 else 0)"
    and "edown \<equiv> (if e \<ge> nup then 1 else 0 :: nat)"
  assumes cfg: "has_shape2 cfg nconf nel"
    and msk: "length msk = nconf" and epos: "length epos = nconf"
    and e: "e < nel"
    and bp: "has_shape4 (b_partial self) nel nconf kb 2"
  shows "\<exists>BP. update_b_partial self e epos msk = Inr (self\<lparr>b_partial := BP\<rparr>) \<and>
      has_shape4 BP nel nconf kb 2 \<and>
      (\<forall>j < nel. \<forall>w < nconf. \<forall>l < kb. \<forall>s < 2.
         BP ! j ! w ! l ! s =
           (if selected msk w then
              (if j = e then b_split (b_basis self ! l) sep (others_of e (cfg ! w)) (epos ! w) ! s
               else if s = edown then
                 b_partial self ! j ! w ! l ! s +
                   (pairv (b_basis self ! l) (epos ! w) (cfg ! w ! j) -
                    pairv (b_basis self ! l) (cfg ! w ! e) (cfg ! w ! j))
               else b_partial self ! j ! w ! l ! s)
            else b_partial self ! j ! w ! l ! s))"
proof -
  let ?ne = "not_e_mask nel e"
  let ?O = "gather (map (others_of e) cfg) msk"
  let ?E = "gather epos msk"
  let ?Eold = "gather (electron cfg e) msk"
  let ?d = "dist_i ?O ?E" and ?dold = "dist_i ?O ?Eold"
  let ?R = "update_b_partial_round e msk ?ne sep edown ?d (map (map vnorm) ?d)
              ?dold (map (map vnorm) ?dold) (b_basis self)"
  have rowlen: "list_all (\<lambda>row. length row = nel) cfg" and lcfg: "length cfg = nconf"
    using cfg by (simp_all add: has_shape2_def)
  have len: "length ?ne = nel" by (simp add: not_e_mask_def)
  have 1: "bool_index cfg msk = Inr (gather cfg msk)"
    using msk lcfg by (simp add: bool_index_def)
  have others: "map (\<lambda>row. gather row ?ne) (gather cfg msk) = ?O"
    using rowlen
    by (simp add: gather_map [symmetric] others_of_def list_all_iff gather_not_e cong: map_cong)
  have 2: "bool_index_ax1 (gather cfg msk) ?ne = Inr ?O"
    using rowlen by (simp add: bool_index_ax1_def others len list_all_gather)
  have 3: "bool_index epos msk = Inr ?E"
    using msk epos by (simp add: bool_index_def)
  have 4: "list_all (\<lambda>row. e < length row) (gather cfg msk)"
    using rowlen e by (intro list_all_gather) (simp add: list_all_iff)
  have 5: "map (\<lambda>row. row ! e) (gather cfg msk) = ?Eold"
    by (simp add: electron_def gather_map)
  have run: "update_b_partial self e epos msk =
      Inr (self\<lparr>b_partial := fold ?R [0..<kb] (b_partial self)\<rparr>)"
    unfolding update_b_partial_def Let_def cfg_def [symmetric] nel_def [symmetric]
      nup_def [symmetric] sep_def [symmetric] edown_def [symmetric] kb_def [symmetric]
    by (simp add: 1 2 3 4 5)
  define G where "G = (\<lambda>l j w s old.
      if selected msk w then
        (if j = e then b_split (b_basis self ! l) sep (others_of e (cfg ! w)) (epos ! w) ! s
         else if s = edown then
           old + (pairv (b_basis self ! l) (epos ! w) (cfg ! w ! j) -
                  pairv (b_basis self ! l) (cfg ! w ! e) (cfg ! w ! j))
         else old)
      else (old :: real))"
  have R_at: "?R l bp' ! j ! w ! l' ! s =
      (if l' = l then G l j w s (bp' ! j ! w ! l' ! s) else bp' ! j ! w ! l' ! s)"
    if sh: "has_shape4 bp' nel nconf kb 2" and j: "j < nel" and w: "w < nconf" and l': "l' < kb"
      and s: "s < 2" for l bp' j w l' s
  proof (cases "l' = l \<and> selected msk w")
    case False
    then show ?thesis
      using round_at [OF sh j w l' s len] by (auto simp: G_def Let_def)
  next
    case True
    let ?b = "b_basis self ! l"
    have wm: "w < length msk" using w msk by simp
    have mw: "msk ! w" using True by (simp add: selected_def)
    have rowl: "length (cfg ! w) = nel" using cfg w by (simp add: has_shape2_D)
    have bval: "gather (pv_table ?b e cfg epos) msk ! rank msk w =
        map (pairv ?b (epos ! w)) (others_of e (cfg ! w))"
      using mw wm w lcfg epos msk
      by (simp add: gather_nth_rank length_pv_table pv_table_nth)
    have bold: "gather (pv_table ?b e cfg (electron cfg e)) msk ! rank msk w =
        map (pairv ?b (cfg ! w ! e)) (others_of e (cfg ! w))"
      using mw wm w lcfg epos msk
      by (simp add: gather_nth_rank length_pv_table pv_table_nth electron_def)
    have diff: "sub2 (gather (pv_table ?b e cfg epos) msk)
        (gather (pv_table ?b e cfg (electron cfg e)) msk) ! rank msk w =
        sub1 (map (pairv ?b (epos ! w)) (others_of e (cfg ! w)))
             (map (pairv ?b (cfg ! w ! e)) (others_of e (cfg ! w)))"
      using mw wm w lcfg epos msk
      by (simp add: sub2_gather gather_nth_rank sub2_nth length_sub2 length_pv_table pv_table_nth
          electron_def)
    have pair: "sub1 (map (pairv ?b (epos ! w)) (others_of e (cfg ! w)))
             (map (pairv ?b (cfg ! w ! e)) (others_of e (cfg ! w))) ! rank ?ne j =
          pairv ?b (epos ! w) (cfg ! w ! j) - pairv ?b (cfg ! w ! e) (cfg ! w ! j)"
      if "j \<noteq> e"
    proof -
      have r: "rank ?ne j = (if j \<le> e then j else j - 1)"
        using j by (simp add: rank_not_e)
      have rl: "(if j \<le> e then j else j - 1) < length (others_of e (cfg ! w))"
        using j e that rowl by (auto simp: length_others_of)
      show ?thesis
        unfolding r using rl others_of_nth [of j "cfg ! w" e] j that rowl
        by (simp add: sub1_nth)
    qed
    have s01: "s = 0 \<or> s = 1" using s by auto
    show ?thesis
      using True round_at [OF sh j w l' s len, of e msk sep edown ?d "map (map vnorm) ?d"
          ?dold "map (map vnorm) ?dold" "b_basis self" l] s01 j
      by (auto simp: G_def Let_def d_core_gather bval diff pair b_split_def not_e_mask_nth)
  qed
  have R_shape: "has_shape4 (?R l bp') nel nconf kb 2 = has_shape4 bp' nel nconf kb 2" for l bp'
    by (rule round_shape)
  from fold_rounds_at [of nel nconf kb 2 ?R G, OF R_at R_shape bp, of kb]
  show ?thesis
    unfolding run by (intro exI [of _ "fold ?R [0..<kb] (b_partial self)"]) (simp add: G_def)
qed

lemma sub3_at:
  assumes "w < length xs" "w < length ys" "i < length (xs ! w)" "i < length (ys ! w)"
    "k < length (xs ! w ! i)" "k < length (ys ! w ! i)"
  shows "sub3 xs ys ! w ! i ! k = xs ! w ! i ! k - ys ! w ! i ! k"
  using assms by (simp add: sub3_nth sub2_nth sub1_nth)

lemma length_sub3: "length (sub3 xs ys) = min (length xs) (length ys)"
  by (simp add: sub3_def)

lemma a_table_shape: "has_shape3 (a_table self epos) (length epos)
    (length (atom_coords (mol self))) (length (a_basis self))"
  by (simp add: a_table_def has_shape3_def has_shape2_def list_all_iff)

lemma a_table_at:
  "w < length epos \<Longrightarrow> i < length (atom_coords (mol self)) \<Longrightarrow> k < length (a_basis self) \<Longrightarrow>
     a_table self epos ! w ! i ! k = pairv (a_basis self ! k) (epos ! w) (atom_coords (mol self) ! i)"
  by (simp add: a_table_def)

lemma b_table_shape:
  "length epos = length (configscurrent self) \<Longrightarrow>
     has_shape3 (b_table self e epos) (length epos) (length (b_basis self)) 2"
  by (auto simp: b_table_def has_shape3_def has_shape2_def list_all_iff Let_def b_split_def
      dest!: set_zip_leftD)

lemma b_table_nth:
  "w < length epos \<Longrightarrow> w < length (configscurrent self) \<Longrightarrow> l < length (b_basis self) \<Longrightarrow>
     b_table self e epos ! w ! l =
       b_split (b_basis self ! l)
         (fst (nelec (mol self)) - (if e < fst (nelec (mol self)) then 1 else 0))
         (others_of e (configscurrent self ! w)) (epos ! w)"
  by (simp add: b_table_def Let_def)

lemma move_char:
  assumes "length accept = length cfg" "length new = length cfg"
  shows "move cfg e new accept =
     Inr (upd2 cfg (\<lambda>w j. selected accept w \<and> j = e) (\<lambda>w j old. gather new accept ! rank accept w))"
  using assms by (simp add: move_def bool_index_def)

lemma shapes_okD:
  assumes "shapes_ok self"
  shows "nelec_total self = fst (nelec (mol self)) + snd (nelec (mol self))"
    and "length (atom_coords (mol self)) = natm (mol self)"
    and "has_shape2 (configscurrent self) (length (configscurrent self)) (nelec_total self)"
    and "has_shape2 (bcoeff self) (length (b_basis self)) 3"
    and "has_shape3 (acoeff self) (natm (mol self)) (length (a_basis self)) 2"
    and "has_shape3 (bvalues self) (length (configscurrent self)) (length (b_basis self)) 3"
    and "has_shape4 (avalues self) (length (configscurrent self)) (natm (mol self))
           (length (a_basis self)) 2"
    and "has_shape4 (a_partial self) (nelec_total self) (length (configscurrent self))
           (natm (mol self)) (length (a_basis self))"
    and "has_shape4 (b_partial self) (nelec_total self) (length (configscurrent self))
           (length (b_basis self)) 2"
  using assms unfolding shapes_ok_def Let_def by blast+

lemma update_b_partial_frame:
  "update_b_partial (self\<lparr>avalues := av, bvalues := bv, a_partial := ap\<rparr>) e epos msk =
     (case update_b_partial self e epos msk of Inl err \<Rightarrow> Inl err
      | Inr s \<Rightarrow> Inr (s\<lparr>avalues := av, bvalues := bv, a_partial := ap\<rparr>))"
  by (simp add: update_b_partial_def Let_def bindE_def split: sum.splits)

lemma updateinternals_run:
  assumes nconf_def: "nconf = length (configscurrent self)"
    and msk_def: "msk = (case mask_opt of None \<Rightarrow> replicate nconf True | Some m \<Rightarrow> m)"
    and edown_def: "edown = (if e \<ge> fst (nelec (mol self)) then 1 else 0 :: nat)"
    and ok: "shapes_ok self"
    and msk: "length msk = nconf" and epos: "length epos = nconf"
    and e: "e < nelec_total self"
  shows "\<exists>BP. updateinternals self e epos mask_opt =
      Inr (self\<lparr>avalues := upd4 (avalues self) (\<lambda>w i k s. selected msk w \<and> s = edown)
               (\<lambda>w i k s old. old + gather (sub3 (a_table self epos) (a_partial self ! e)) msk
                   ! rank msk w ! i ! k),
             bvalues := upd3 (bvalues self) (\<lambda>w l c. selected msk w \<and> edown \<le> c \<and> c < edown + 2)
               (\<lambda>w l c old. old + gather (sub3 (b_table self e epos) (b_partial self ! e)) msk
                   ! rank msk w ! l ! (c - edown)),
             a_partial := upd4 (a_partial self) (\<lambda>j w i k. j = e \<and> selected msk w)
               (\<lambda>j w i k old. gather (a_table self epos) msk ! rank msk w ! i ! k),
             b_partial := BP,
             configscurrent := upd2 (configscurrent self) (\<lambda>w j. selected msk w \<and> j = e)
               (\<lambda>w j old. gather epos msk ! rank msk w)\<rparr>) \<and>
      update_b_partial self e epos msk = Inr (self\<lparr>b_partial := BP\<rparr>)"
proof -
  let ?nel = "nelec_total self" and ?kb = "length (b_basis self)"
  have cfg: "has_shape2 (configscurrent self) nconf ?nel"
    and bp: "has_shape4 (b_partial self) ?nel nconf ?kb 2"
    and ap: "has_shape4 (a_partial self) ?nel nconf (natm (mol self)) (length (a_basis self))"
    and av: "length (avalues self) = nconf" and bv: "length (bvalues self) = nconf"
    using shapes_okD [OF ok] by (simp_all add: nconf_def has_shape4_def has_shape3_def)
  have rows: "list_all (\<lambda>row. length row = ?nel) (configscurrent self)"
    using cfg by (simp add: has_shape2_def)
  have m_def: "(case mask_opt of None \<Rightarrow> replicate (length (configscurrent self)) True | Some m \<Rightarrow> m) = msk"
    unfolding msk_def nconf_def ..
  have a: "a_update self e epos msk = Inr (gather (a_table self epos) msk)"
    using msk epos by (simp add: a_update_char)
  have b: "b_update self e epos msk = Inr (gather (b_table self e epos) msk)"
    using msk epos rows by (simp add: b_update_char nconf_def)
  have ia: "index_e_mask (a_partial self) e msk = Inr (gather (a_partial self ! e) msk)"
    using has_shape4_D(1,2) [OF ap] e msk by (simp add: index_e_mask_def bool_index_def)
  have ib: "index_e_mask (b_partial self) e msk = Inr (gather (b_partial self ! e) msk)"
    using has_shape4_D(1,2) [OF bp] e msk by (simp add: index_e_mask_def bool_index_def)
  have iav: "bool_index (avalues self) msk = Inr (gather (avalues self) msk)"
    and ibv: "bool_index (bvalues self) msk = Inr (gather (bvalues self) msk)"
    using av bv msk by (simp_all add: bool_index_def)
  let ?self3 = "self\<lparr>avalues := upd4 (avalues self) (\<lambda>w i k s. selected msk w \<and> s = edown)
               (\<lambda>w i k s old. old + gather (sub3 (a_table self epos) (a_partial self ! e)) msk
                   ! rank msk w ! i ! k),
             bvalues := upd3 (bvalues self) (\<lambda>w l c. selected msk w \<and> edown \<le> c \<and> c < edown + 2)
               (\<lambda>w l c old. old + gather (sub3 (b_table self e epos) (b_partial self ! e)) msk
                   ! rank msk w ! l ! (c - edown)),
             a_partial := upd4 (a_partial self) (\<lambda>j w i k. j = e \<and> selected msk w)
               (\<lambda>j w i k old. gather (a_table self epos) msk ! rank msk w ! i ! k)\<rparr>"
  from update_b_partial_char [OF cfg msk epos e bp]
  obtain BP where BP: "update_b_partial self e epos msk = Inr (self\<lparr>b_partial := BP\<rparr>)"
    by blast
  have ub3: "update_b_partial ?self3 e epos msk = Inr (?self3\<lparr>b_partial := BP\<rparr>)"
    by (simp add: update_b_partial_frame BP)
  have mv: "move (configscurrent self) e epos msk =
     Inr (upd2 (configscurrent self) (\<lambda>w j. selected msk w \<and> j = e) (\<lambda>w j old. gather epos msk ! rank msk w))"
    using msk epos by (simp add: move_char nconf_def)
  show ?thesis
    apply (rule exI [of _ BP])
    apply (rule conjI [OF _ BP])
    unfolding updateinternals_def m_def Let_def edown_def [symmetric] a b ia ib iav ibv bindE_Inr
      sub3_gather
    apply (simp add: update_b_partial_frame BP mv)
    done
qed

lemma b_split_length [simp]: "length (b_split b sep others p) = 2"
  by (simp add: b_split_def)

lemma shapes_okI:
  assumes "nelec_total self = fst (nelec (mol self)) + snd (nelec (mol self))"
    and "length (atom_coords (mol self)) = natm (mol self)"
    and "has_shape2 (configscurrent self) (length (configscurrent self)) (nelec_total self)"
    and "has_shape2 (bcoeff self) (length (b_basis self)) 3"
    and "has_shape3 (acoeff self) (natm (mol self)) (length (a_basis self)) 2"
    and "has_shape3 (bvalues self) (length (configscurrent self)) (length (b_basis self)) 3"
    and "has_shape4 (avalues self) (length (configscurrent self)) (natm (mol self))
           (length (a_basis self)) 2"
    and "has_shape4 (a_partial self) (nelec_total self) (length (configscurrent self))
           (natm (mol self)) (length (a_basis self))"
    and "has_shape4 (b_partial self) (nelec_total self) (length (configscurrent self))
           (length (b_basis self)) 2"
  shows "shapes_ok self"
  using assms unfolding shapes_ok_def Let_def by blast

lemma updateinternals_char:
  assumes nconf_def: "nconf = length (configscurrent self)"
    and nel_def: "nel = nelec_total self" and na_def: "na = natm (mol self)"
    and ka_def: "ka = length (a_basis self)" and kb_def: "kb = length (b_basis self)"
    and nup_def: "nup = fst (nelec (mol self))"
    and msk_def: "msk = (case mask_opt of None \<Rightarrow> replicate nconf True | Some m \<Rightarrow> m)"
    and edown_def: "edown = (if e \<ge> nup then 1 else 0 :: nat)"
    and sep_def: "sep = nup - (if e < nup then 1 else 0)"
    and ok: "shapes_ok self"
    and msk: "length msk = nconf" and epos: "length epos = nconf"
    and e: "e < nel"
  shows "\<exists>self'. updateinternals self e epos mask_opt = Inr self' \<and>
     mol self' = mol self \<and> nelec_total self' = nelec_total self \<and>
     a_basis self' = a_basis self \<and> b_basis self' = b_basis self \<and>
     bcoeff self' = bcoeff self \<and> acoeff self' = acoeff self \<and>
     length (configscurrent self') = nconf \<and> shapes_ok self' \<and>
     (\<forall>w < nconf. \<forall>i < na. \<forall>k < ka. \<forall>s < 2.
        avalues self' ! w ! i ! k ! s =
          (if selected msk w \<and> s = edown
           then avalues self ! w ! i ! k ! s +
                  (pairv (a_basis self ! k) (epos ! w) (atom_coords (mol self) ! i) -
                   a_partial self ! e ! w ! i ! k)
           else avalues self ! w ! i ! k ! s)) \<and>
     (\<forall>w < nconf. \<forall>l < kb. \<forall>c < 3.
        bvalues self' ! w ! l ! c =
          (if selected msk w \<and> edown \<le> c \<and> c < edown + 2
           then bvalues self ! w ! l ! c +
                  (b_split (b_basis self ! l) sep (others_of e (configscurrent self ! w)) (epos ! w)
                     ! (c - edown) -
                   b_partial self ! e ! w ! l ! (c - edown))
           else bvalues self ! w ! l ! c)) \<and>
     (\<forall>j < nel. \<forall>w < nconf. \<forall>i < na. \<forall>k < ka.
        a_partial self' ! j ! w ! i ! k =
          (if j = e \<and> selected msk w
           then pairv (a_basis self ! k) (epos ! w) (atom_coords (mol self) ! i)
           else a_partial self ! j ! w ! i ! k)) \<and>
     (\<forall>j < nel. \<forall>w < nconf. \<forall>l < kb. \<forall>s < 2.
        b_partial self' ! j ! w ! l ! s =
           (if selected msk w then
              (if j = e then b_split (b_basis self ! l) sep (others_of e (configscurrent self ! w))
                               (epos ! w) ! s
               else if s = edown then
                 b_partial self ! j ! w ! l ! s +
                   (pairv (b_basis self ! l) (epos ! w) (configscurrent self ! w ! j) -
                    pairv (b_basis self ! l) (configscurrent self ! w ! e)
                      (configscurrent self ! w ! j))
               else b_partial self ! j ! w ! l ! s)
            else b_partial self ! j ! w ! l ! s)) \<and>
     (\<forall>w < nconf. \<forall>j < nel.
        configscurrent self' ! w ! j =
          (if selected msk w \<and> j = e then epos ! w else configscurrent self ! w ! j))"
proof -
  note sh = shapes_okD [OF ok, folded nconf_def nel_def na_def ka_def kb_def]
  have atoms: "length (atom_coords (mol self)) = na" using sh(2) .
  from updateinternals_run [OF nconf_def msk_def edown_def [unfolded nup_def] ok msk epos
      e [unfolded nel_def]]
  obtain BP where run: "updateinternals self e epos mask_opt =
      Inr (self\<lparr>avalues := upd4 (avalues self) (\<lambda>w i k s. selected msk w \<and> s = edown)
               (\<lambda>w i k s old. old + gather (sub3 (a_table self epos) (a_partial self ! e)) msk
                   ! rank msk w ! i ! k),
             bvalues := upd3 (bvalues self) (\<lambda>w l c. selected msk w \<and> edown \<le> c \<and> c < edown + 2)
               (\<lambda>w l c old. old + gather (sub3 (b_table self e epos) (b_partial self ! e)) msk
                   ! rank msk w ! l ! (c - edown)),
             a_partial := upd4 (a_partial self) (\<lambda>j w i k. j = e \<and> selected msk w)
               (\<lambda>j w i k old. gather (a_table self epos) msk ! rank msk w ! i ! k),
             b_partial := BP,
             configscurrent := upd2 (configscurrent self) (\<lambda>w j. selected msk w \<and> j = e)
               (\<lambda>w j old. gather epos msk ! rank msk w)\<rparr>)"
    and ubp: "update_b_partial self e epos msk = Inr (self\<lparr>b_partial := BP\<rparr>)"
    by blast
  from update_b_partial_char [OF sh(3) [unfolded nel_def] msk epos e [unfolded nel_def]
      sh(9) [unfolded nel_def kb_def]]
  obtain BP' where BP': "update_b_partial self e epos msk = Inr (self\<lparr>b_partial := BP'\<rparr>)"
    and BPsh': "has_shape4 BP' (nelec_total self) nconf (length (b_basis self)) 2"
    and BPat': "\<forall>j < nelec_total self. \<forall>w < nconf. \<forall>l < length (b_basis self). \<forall>s < 2.
         BP' ! j ! w ! l ! s =
           (if selected msk w then
              (if j = e then b_split (b_basis self ! l)
                    (fst (nelec (mol self)) - (if e < fst (nelec (mol self)) then 1 else 0))
                    (others_of e (configscurrent self ! w)) (epos ! w) ! s
               else if s = (if fst (nelec (mol self)) \<le> e then 1 else 0) then
                 b_partial self ! j ! w ! l ! s +
                   (pairv (b_basis self ! l) (epos ! w) (configscurrent self ! w ! j) -
                    pairv (b_basis self ! l) (configscurrent self ! w ! e)
                      (configscurrent self ! w ! j))
               else b_partial self ! j ! w ! l ! s)
            else b_partial self ! j ! w ! l ! s)"
    by blast
  have "b_partial (self\<lparr>b_partial := BP'\<rparr>) = b_partial (self\<lparr>b_partial := BP\<rparr>)"
    using BP' ubp by simp
  then have same: "BP' = BP" by simp
  have BPsh: "has_shape4 BP nel nconf kb 2"
    using BPsh' by (simp add: same nel_def kb_def)
  have BPat: "\<forall>j < nel. \<forall>w < nconf. \<forall>l < kb. \<forall>s < 2.
         BP ! j ! w ! l ! s =
           (if selected msk w then
              (if j = e then b_split (b_basis self ! l) sep (others_of e (configscurrent self ! w))
                               (epos ! w) ! s
               else if s = edown then
                 b_partial self ! j ! w ! l ! s +
                   (pairv (b_basis self ! l) (epos ! w) (configscurrent self ! w ! j) -
                    pairv (b_basis self ! l) (configscurrent self ! w ! e)
                      (configscurrent self ! w ! j))
               else b_partial self ! j ! w ! l ! s)
            else b_partial self ! j ! w ! l ! s)"
    using BPat' unfolding same nel_def kb_def sep_def edown_def nup_def .
  have ash: "has_shape3 (a_table self epos) nconf na ka"
    using a_table_shape [of self epos] by (simp add: epos atoms ka_def)
  have bsh: "has_shape3 (b_table self e epos) nconf kb 2"
    using b_table_shape [of epos self e] epos by (simp add: nconf_def kb_def)
  have ape: "has_shape3 (a_partial self ! e) nconf na ka"
    using has_shape4_nth [OF sh(8) e] .
  have bpe: "has_shape3 (b_partial self ! e) nconf kb 2"
    using has_shape4_nth [OF sh(9) e] .
  have A: "gather (sub3 (a_table self epos) (a_partial self ! e)) msk ! rank msk w ! i ! k =
      pairv (a_basis self ! k) (epos ! w) (atom_coords (mol self) ! i) - a_partial self ! e ! w ! i ! k"
    if "w < nconf" "selected msk w" "i < na" "k < ka" for w i k
    using that msk epos has_shape3_D [OF ash] has_shape3_D [OF ape] atoms
    by (simp add: selected_def gather_nth_rank length_sub3 sub3_at a_table_at ka_def)
  have A': "gather (a_table self epos) msk ! rank msk w ! i ! k =
      pairv (a_basis self ! k) (epos ! w) (atom_coords (mol self) ! i)"
    if "w < nconf" "selected msk w" "i < na" "k < ka" for w i k
    using that msk epos has_shape3_D [OF ash] atoms
    by (simp add: selected_def gather_nth_rank a_table_at ka_def)
  have B: "gather (sub3 (b_table self e epos) (b_partial self ! e)) msk ! rank msk w ! l ! c =
      b_split (b_basis self ! l) sep (others_of e (configscurrent self ! w)) (epos ! w) ! c -
        b_partial self ! e ! w ! l ! c"
    if "w < nconf" "selected msk w" "l < kb" "c < 2" for w l c
    using that msk epos has_shape3_D [OF bsh] has_shape3_D [OF bpe]
    by (simp add: selected_def gather_nth_rank length_sub3 sub3_at)
      (simp add: b_table_nth nconf_def kb_def sep_def nup_def)
  have E: "gather epos msk ! rank msk w = epos ! w" if "w < nconf" "selected msk w" for w
    using that msk epos by (simp add: selected_def gather_nth_rank)
  let ?s' = "self\<lparr>avalues := upd4 (avalues self) (\<lambda>w i k s. selected msk w \<and> s = edown)
               (\<lambda>w i k s old. old + gather (sub3 (a_table self epos) (a_partial self ! e)) msk
                   ! rank msk w ! i ! k),
             bvalues := upd3 (bvalues self) (\<lambda>w l c. selected msk w \<and> edown \<le> c \<and> c < edown + 2)
               (\<lambda>w l c old. old + gather (sub3 (b_table self e epos) (b_partial self ! e)) msk
                   ! rank msk w ! l ! (c - edown)),
             a_partial := upd4 (a_partial self) (\<lambda>j w i k. j = e \<and> selected msk w)
               (\<lambda>j w i k old. gather (a_table self epos) msk ! rank msk w ! i ! k),
             b_partial := BP,
             configscurrent := upd2 (configscurrent self) (\<lambda>w j. selected msk w \<and> j = e)
               (\<lambda>w j old. gather epos msk ! rank msk w)\<rparr>"
  note shu = shapes_okD [OF ok]
  have lc: "length (configscurrent ?s') = nconf"
    by (simp add: nconf_def)
  have sok: "shapes_ok ?s'"
  proof (rule shapes_okI)
    show "nelec_total ?s' = fst (nelec (mol ?s')) + snd (nelec (mol ?s'))"
      using shu(1) by simp
    show "length (atom_coords (mol ?s')) = natm (mol ?s')"
      using shu(2) by simp
    show "has_shape2 (configscurrent ?s') (length (configscurrent ?s')) (nelec_total ?s')"
      using shu(3) by simp
    show "has_shape2 (bcoeff ?s') (length (b_basis ?s')) 3"
      using shu(4) by simp
    show "has_shape3 (acoeff ?s') (natm (mol ?s')) (length (a_basis ?s')) 2"
      using shu(5) by simp
    show "has_shape3 (bvalues ?s') (length (configscurrent ?s')) (length (b_basis ?s')) 3"
      using shu(6) by simp
    show "has_shape4 (avalues ?s') (length (configscurrent ?s')) (natm (mol ?s'))
           (length (a_basis ?s')) 2"
      using shu(7) by simp
    show "has_shape4 (a_partial ?s') (nelec_total ?s') (length (configscurrent ?s'))
           (natm (mol ?s')) (length (a_basis ?s'))"
      using shu(8) by simp
    show "has_shape4 (b_partial ?s') (nelec_total ?s') (length (configscurrent ?s'))
           (length (b_basis ?s')) 2"
      using BPsh by (simp add: nel_def nconf_def kb_def)
  qed
  have av: "avalues ?s' ! w ! i ! k ! s =
          (if selected msk w \<and> s = edown
           then avalues self ! w ! i ! k ! s +
                  (pairv (a_basis self ! k) (epos ! w) (atom_coords (mol self) ! i) -
                   a_partial self ! e ! w ! i ! k)
           else avalues self ! w ! i ! k ! s)"
    if "w < nconf" "i < na" "k < ka" "s < 2" for w i k s
    using upd4_at [OF sh(7) that] A [OF that(1) _ that(2,3)] by auto
  have bv: "bvalues ?s' ! w ! l ! c =
          (if selected msk w \<and> edown \<le> c \<and> c < edown + 2
           then bvalues self ! w ! l ! c +
                  (b_split (b_basis self ! l) sep (others_of e (configscurrent self ! w)) (epos ! w)
                     ! (c - edown) -
                   b_partial self ! e ! w ! l ! (c - edown))
           else bvalues self ! w ! l ! c)"
    if "w < nconf" "l < kb" "c < 3" for w l c
    using upd3_at [OF sh(6) that] B [OF that(1) _ that(2), of "c - edown"] by auto
  have ap: "a_partial ?s' ! j ! w ! i ! k =
          (if j = e \<and> selected msk w
           then pairv (a_basis self ! k) (epos ! w) (atom_coords (mol self) ! i)
           else a_partial self ! j ! w ! i ! k)"
    if "j < nel" "w < nconf" "i < na" "k < ka" for j w i k
    using upd4_at [OF sh(8) that] A' [OF that(2) _ that(3,4)] by auto
  have cf: "configscurrent ?s' ! w ! j =
          (if selected msk w \<and> j = e then epos ! w else configscurrent self ! w ! j)"
    if "w < nconf" "j < nel" for w j
    using upd2_at [OF sh(3) that] E [OF that(1)] by auto
  show ?thesis
    unfolding run
    apply (rule exI, rule conjI [OF refl])
    apply (intro conjI)
    subgoal by simp
    subgoal by simp
    subgoal by simp
    subgoal by simp
    subgoal by simp
    subgoal by simp
    subgoal by (rule lc)
    subgoal by (rule sok)
    subgoal using av by blast
    subgoal using bv by blast
    subgoal using ap by blast
    subgoal using BPat by simp
    subgoal using cf by blast
    done
qed

lemma update_success_D:
  assumes ok: "shapes_ok self"
    and run: "updateinternals self e epos mask_opt = Inr self'"
    and msk_def: "msk = (case mask_opt of None \<Rightarrow> replicate (length (configscurrent self)) True
                         | Some m \<Rightarrow> m)"
  shows "msk \<noteq> [] \<Longrightarrow> length msk = length (configscurrent self)"
    and "msk \<noteq> [] \<Longrightarrow> length epos = length (configscurrent self)"
    and "e < nelec_total self"
proof -
  have run': "bindE (a_update self e epos msk) (\<lambda>aupdate.
         bindE (b_update self e epos msk) (\<lambda>bupdate.
         bindE (index_e_mask (a_partial self) e msk) (\<lambda>apart. Inr ()))) = Inr ()"
    using run unfolding updateinternals_def Let_def msk_def [symmetric]
    by (auto simp: bindE_eq_Inr)
  show 1: "length msk = length (configscurrent self)" if ne: "msk \<noteq> []"
  proof (rule ccontr)
    assume "length msk \<noteq> length (configscurrent self)"
    then show False
      using run' b_update_bad [of msk self e epos] ne by (auto simp: bindE_eq_Inr)
  qed
  show "length epos = length (configscurrent self)" if ne: "msk \<noteq> []"
  proof (rule ccontr)
    assume "length epos \<noteq> length (configscurrent self)"
    then show False
      using run' a_update_bad [of msk epos self e] 1 [OF ne] ne by (auto simp: bindE_eq_Inr)
  qed
  show "e < nelec_total self"
    using run' has_shape4_D(1) [OF shapes_okD(8) [OF ok]]
    by (auto simp: bindE_eq_Inr index_e_mask_def split: if_splits)
qed

lemma upd4_none: "upd4 a (\<lambda>i j k l. False) f = a"
  by (simp add: upd4_def mapi_id)

lemma upd3_none: "upd3 a (\<lambda>i j k. False) f = a"
  by (simp add: upd3_def mapi_id)

lemma upd2_none: "upd2 a (\<lambda>i j. False) f = a"
  by (simp add: upd2_def mapi_id)

lemma fold_same: "(\<And>x acc. f x acc = acc) \<Longrightarrow> fold f xs acc = acc"
  by (induction xs) simp_all

lemma a_update_empty: "a_update self e epos [] = Inr []"
  by (simp add: a_update_def dist_i_fixed_def)

lemma b_update_empty: "b_update self e epos [] = Inr []"
  by (simp add: b_update_def Let_def bool_index_ax1_def dist_i_def)

lemma update_b_partial_empty: "update_b_partial self e epos [] = Inr self"
proof -
  have "update_b_partial_round e [] ne sep edown d r dold rold basis l bp = bp"
    for ne sep edown d r dold rold basis l bp
    by (simp add: update_b_partial_round_def Let_def upd4_none)
  then show ?thesis
    by (simp add: update_b_partial_def Let_def bool_index_ax1_def fold_same)
qed

text \<open>A mask of length zero selects no walker: the call checks the particle index and
  leaves the engine as it was.\<close>

lemma updateinternals_empty:
  assumes "e < length (a_partial self)" "e < length (b_partial self)"
  shows "updateinternals self e epos (Some []) = Inr self"
  using assms
  by (simp add: updateinternals_def Let_def a_update_empty b_update_empty index_e_mask_def
      upd4_none upd3_none upd2_none update_b_partial_empty move_def)

lemma updateinternals_empty_bad:
  assumes "\<not> (e < length (a_partial self) \<and> e < length (b_partial self))"
  shows "updateinternals self e epos (Some []) = Inl IndexError"
  using assms
  by (auto simp: updateinternals_def Let_def a_update_empty b_update_empty index_e_mask_def)

lemma shape2_eqI:
  assumes "has_shape2 a n1 n2" "has_shape2 b n1 n2"
    and "\<And>i j. i < n1 \<Longrightarrow> j < n2 \<Longrightarrow> a ! i ! j = b ! i ! j"
  shows "a = b"
  using assms by (auto simp: has_shape2_D intro!: nth_equalityI)

lemma shape3_eqI:
  assumes "has_shape3 a n1 n2 n3" "has_shape3 b n1 n2 n3"
    and "\<And>i j k. i < n1 \<Longrightarrow> j < n2 \<Longrightarrow> k < n3 \<Longrightarrow> a ! i ! j ! k = b ! i ! j ! k"
  shows "a = b"
proof (rule nth_equalityI)
  show "length a = length b" using assms(1,2) by (simp add: has_shape3_D)
  fix i assume "i < length a"
  then have i: "i < n1" using assms(1) by (simp add: has_shape3_D)
  show "a ! i = b ! i"
    using has_shape3_nth [OF assms(1) i] has_shape3_nth [OF assms(2) i] assms(3) [OF i]
    by (rule shape2_eqI)
qed

lemma ex_shapes: "shapes_ok ex_engine"
  by (simp add: shapes_ok_def has_shape4_def has_shape3_def has_shape2_def ex_defs)

section \<open>The log value as a sum, and the ratio\<close>

lemma dot1_sum:
  "length xs = n \<Longrightarrow> length ys = n \<Longrightarrow> dot1 xs ys = (\<Sum>i < n. xs ! i * ys ! i)"
  by (simp add: dot1_def sum_list_sum_nth atLeast0LessThan)

lemma dot2_sum:
  assumes "has_shape2 xs n m" "has_shape2 ys n m"
  shows "dot2 xs ys = (\<Sum>i < n. \<Sum>j < m. xs ! i ! j * ys ! i ! j)"
  using assms
  by (simp add: dot2_def sum_list_sum_nth atLeast0LessThan has_shape2_D dot1_sum [where n = m])

lemma dot3_sum:
  assumes "has_shape3 xs n m p" "has_shape3 ys n m p"
  shows "dot3 xs ys = (\<Sum>i < n. \<Sum>j < m. \<Sum>k < p. xs ! i ! j ! k * ys ! i ! j ! k)"
proof -
  have "dot3 xs ys = (\<Sum>i < n. dot2 (xs ! i) (ys ! i))"
    using assms by (simp add: dot3_def sum_list_sum_nth atLeast0LessThan has_shape3_D)
  also have "\<dots> = (\<Sum>i < n. \<Sum>j < m. \<Sum>k < p. xs ! i ! j ! k * ys ! i ! j ! k)"
    using assms by (intro sum.cong refl dot2_sum) (simp_all add: has_shape3_nth)
  finally show ?thesis .
qed

lemma value_wf_at:
  assumes "shapes_ok self" "w < length (configscurrent self)"
  shows "snd (value_wf self) ! w =
     dot2 (bvalues self ! w) (bcoeff self) + dot3 (avalues self ! w) (acoeff self)"
  using assms shapes_okD(6,7) [OF assms(1)]
  by (simp add: value_wf_def Let_def has_shape3_D has_shape4_D)

lemma testvalue_char:
  assumes msk_def: "msk = (case mask_opt of None \<Rightarrow> replicate (length epos) True | Some m \<Rightarrow> m)"
    and edown_def: "edown = (if e \<ge> fst (nelec (mol self)) then 1 else 0 :: nat)"
    and ok: "shapes_ok self"
    and msk: "length msk = length (configscurrent self)"
    and epos: "length epos = length (configscurrent self)"
    and e: "e < nelec_total self"
  shows "testvalue self e epos mask_opt =
     Inr (gather (map exp (map2 (+)
            (map (\<lambda>dw. dot2 dw (map (\<lambda>c. take 2 (drop edown c)) (bcoeff self)))
               (sub3 (b_table self e epos) (b_partial self ! e)))
            (map (\<lambda>dw. dot2 dw (map (map (\<lambda>c. c ! edown)) (acoeff self)))
               (sub3 (a_table self epos) (a_partial self ! e))))) msk, self)"
proof -
  note sh = shapes_okD [OF ok]
  have rows: "list_all (\<lambda>row. length row = nelec_total self) (configscurrent self)"
    using sh(3) by (simp add: has_shape2_def)
  have m_def: "(case mask_opt of None \<Rightarrow> replicate (length epos) True | Some m \<Rightarrow> m) = msk"
    unfolding msk_def ..
  have a: "a_update self e epos msk = Inr (gather (a_table self epos) msk)"
    using msk epos by (simp add: a_update_char)
  have b: "b_update self e epos msk = Inr (gather (b_table self e epos) msk)"
    using msk epos rows by (simp add: b_update_char)
  have ia: "index_e_mask (a_partial self) e msk = Inr (gather (a_partial self ! e) msk)"
    using has_shape4_D(1,2) [OF sh(8)] e msk by (simp add: index_e_mask_def bool_index_def)
  have ib: "index_e_mask (b_partial self) e msk = Inr (gather (b_partial self ! e) msk)"
    using has_shape4_D(1,2) [OF sh(9)] e msk by (simp add: index_e_mask_def bool_index_def)
  show ?thesis
    unfolding testvalue_def m_def Let_def edown_def [symmetric] a b ia ib bindE_Inr sub3_gather
    by (simp only: gather_map [symmetric] gather_map2)
qed

lemma coeff_slice_a:
  assumes "has_shape3 ac na ka 2"
  shows "has_shape2 (map (map (\<lambda>c. c ! ed)) ac) na ka"
    and "i < na \<Longrightarrow> k < ka \<Longrightarrow> map (map (\<lambda>c. c ! ed)) ac ! i ! k = ac ! i ! k ! ed"
  using assms by (auto simp: has_shape3_def has_shape2_def list_all_length)

lemma coeff_slice_b:
  assumes "has_shape2 bc kb 3" "ed \<le> 1"
  shows "has_shape2 (map (\<lambda>c. take 2 (drop ed c)) bc) kb 2"
    and "l < kb \<Longrightarrow> s < 2 \<Longrightarrow> map (\<lambda>c. take 2 (drop ed c)) bc ! l ! s = bc ! l ! (ed + s)"
  using assms by (auto simp: has_shape2_def list_all_length min_def)

lemma has_shape2_sub2:
  "has_shape2 xs n m \<Longrightarrow> has_shape2 ys n m \<Longrightarrow> has_shape2 (sub2 xs ys) n m"
  by (auto simp: has_shape2_def sub2_def sub1_def list_all_length)

lemma sum2_expand: "(\<Sum>s < (2 :: nat). f s) = f 0 + f 1"
  by (simp add: numeral_2_eq_2)

lemma sum3_expand: "(\<Sum>s < (3 :: nat). f s) = f 0 + f 1 + f 2"
  by (simp add: numeral_3_eq_3 numeral_2_eq_2)

lemma ratio_general:
  assumes msk_def: "msk = (case mask_opt of None \<Rightarrow> replicate (length epos) True | Some m \<Rightarrow> m)"
    and ok: "shapes_ok self"
    and tv: "testvalue self e epos mask_opt = Inr (v, s)"
    and run: "updateinternals self e epos (Some msk) = Inr self'"
    and w: "w < length (configscurrent self)" and mw: "msk ! w"
    and len: "length msk = length (configscurrent self)"
  shows "v ! rank msk w = exp (snd (value_wf self') ! w - snd (value_wf self) ! w)"
proof -
  have ne: "msk \<noteq> []" using w len by auto
  have smw: "selected msk w" using w mw len by (simp add: selected_def)
  let ?nconf = "length (configscurrent self)" and ?nel = "nelec_total self"
  let ?na = "natm (mol self)" and ?ka = "length (a_basis self)" and ?kb = "length (b_basis self)"
  define edown where "edown = (if e \<ge> fst (nelec (mol self)) then 1 else 0 :: nat)"
  define sep where "sep = fst (nelec (mol self)) - (if e < fst (nelec (mol self)) then 1 else 0)"
  have ed: "edown \<le> 1" by (simp add: edown_def)
  note sh = shapes_okD [OF ok]
  note pre = update_success_D(1,2) [OF ok run, of msk, simplified, OF ne]
    update_success_D(3) [OF ok run refl]
  have atoms: "length (atom_coords (mol self)) = ?na" using sh(2) .
  from updateinternals_char [OF refl refl refl refl refl refl _ edown_def sep_def ok _ pre(2,3),
      of msk "Some msk"] pre(1) run
  have ok': "shapes_ok self'"
    and same: "bcoeff self' = bcoeff self" "acoeff self' = acoeff self"
      "length (configscurrent self') = ?nconf" "mol self' = mol self"
      "a_basis self' = a_basis self" "b_basis self' = b_basis self"
    and av: "\<And>i k s. i < ?na \<Longrightarrow> k < ?ka \<Longrightarrow> s < 2 \<Longrightarrow>
        avalues self' ! w ! i ! k ! s =
          (if s = edown
           then avalues self ! w ! i ! k ! s +
                  (pairv (a_basis self ! k) (epos ! w) (atom_coords (mol self) ! i) -
                   a_partial self ! e ! w ! i ! k)
           else avalues self ! w ! i ! k ! s)"
    and bv: "\<And>l c. l < ?kb \<Longrightarrow> c < 3 \<Longrightarrow>
        bvalues self' ! w ! l ! c =
          (if edown \<le> c \<and> c < edown + 2
           then bvalues self ! w ! l ! c +
                  (b_split (b_basis self ! l) sep (others_of e (configscurrent self ! w)) (epos ! w)
                     ! (c - edown) -
                   b_partial self ! e ! w ! l ! (c - edown))
           else bvalues self ! w ! l ! c)"
    using w smw by auto
  note sh' = shapes_okD [OF ok', unfolded same]
  \<comment> \<open>the ratio\<close>
  let ?Da = "sub3 (a_table self epos) (a_partial self ! e)"
  let ?Db = "sub3 (b_table self e epos) (b_partial self ! e)"
  let ?Ac = "map (map (\<lambda>c. c ! edown)) (acoeff self)"
  let ?Bc = "map (\<lambda>c. take 2 (drop edown c)) (bcoeff self)"
  have ash: "has_shape3 (a_table self epos) ?nconf ?na ?ka"
    using a_table_shape [of self epos] by (simp add: pre atoms)
  have bsh: "has_shape3 (b_table self e epos) ?nconf ?kb 2"
    using b_table_shape [of epos self e] pre by simp
  have ape: "has_shape3 (a_partial self ! e) ?nconf ?na ?ka"
    using has_shape4_nth [OF sh(8) pre(3)] .
  have bpe: "has_shape3 (b_partial self ! e) ?nconf ?kb 2"
    using has_shape4_nth [OF sh(9) pre(3)] .
  have tv': "testvalue self e epos mask_opt =
     Inr (gather (map exp (map2 (+) (map (\<lambda>dw. dot2 dw ?Bc) ?Db) (map (\<lambda>dw. dot2 dw ?Ac) ?Da))) msk,
          self)"
    using testvalue_char [OF msk_def edown_def ok pre] .
  let ?V = "map exp (map2 (+) (map (\<lambda>dw. dot2 dw ?Bc) ?Db) (map (\<lambda>dw. dot2 dw ?Ac) ?Da))"
  have lV: "length ?V = length msk"
    using pre has_shape3_D(1) [OF ash] has_shape3_D(1) [OF bsh]
      has_shape3_D(1) [OF ape] has_shape3_D(1) [OF bpe]
    by (simp add: length_sub3)
  have "v = gather ?V msk"
    using tv unfolding tv' by auto
  then have "v ! rank msk w = ?V ! w"
    using gather_nth_rank [OF lV _ mw] w pre by simp
  also have "\<dots> = exp (dot2 (?Db ! w) ?Bc + dot2 (?Da ! w) ?Ac)"
    using w lV pre by simp
  finally have v: "v ! rank msk w = exp (dot2 (?Db ! w) ?Bc + dot2 (?Da ! w) ?Ac)" .
  have Daw: "?Da ! w = sub2 (a_table self epos ! w) (a_partial self ! e ! w)"
    using w has_shape3_D(1) [OF ash] has_shape3_D(1) [OF ape] by (simp add: sub3_nth)
  have Dbw: "?Db ! w = sub2 (b_table self e epos ! w) (b_partial self ! e ! w)"
    using w has_shape3_D(1) [OF bsh] has_shape3_D(1) [OF bpe] by (simp add: sub3_nth)
  have Da_sh: "has_shape2 (?Da ! w) ?na ?ka"
    unfolding Daw using has_shape3_nth [OF ash w] has_shape3_nth [OF ape w]
    by (rule has_shape2_sub2)
  have Db_sh: "has_shape2 (?Db ! w) ?kb 2"
    unfolding Dbw using has_shape3_nth [OF bsh w] has_shape3_nth [OF bpe w]
    by (rule has_shape2_sub2)
  have Da_at: "?Da ! w ! i ! k =
      pairv (a_basis self ! k) (epos ! w) (atom_coords (mol self) ! i) - a_partial self ! e ! w ! i ! k"
    if "i < ?na" "k < ?ka" for i k
    using that w pre has_shape3_D [OF ash] has_shape3_D [OF ape] atoms
    by (simp add: sub3_at a_table_at)
  have Db_at: "?Db ! w ! l ! c =
      b_split (b_basis self ! l) sep (others_of e (configscurrent self ! w)) (epos ! w) ! c -
        b_partial self ! e ! w ! l ! c"
    if "l < ?kb" "c < 2" for l c
    using that w pre has_shape3_D [OF bsh] has_shape3_D [OF bpe]
    by (simp add: sub3_at) (simp add: b_table_nth sep_def)
  have a_part: "dot3 (avalues self' ! w) (acoeff self) - dot3 (avalues self ! w) (acoeff self) =
      dot2 (?Da ! w) ?Ac"
  proof -
    have "dot3 (avalues self' ! w) (acoeff self) - dot3 (avalues self ! w) (acoeff self) =
        (\<Sum>i < ?na. \<Sum>k < ?ka. \<Sum>s < 2.
           avalues self' ! w ! i ! k ! s * acoeff self ! i ! k ! s -
           avalues self ! w ! i ! k ! s * acoeff self ! i ! k ! s)"
      using has_shape4_nth [OF sh'(7) w] has_shape4_nth [OF sh(7) w] sh(5)
      by (simp add: dot3_sum [where n = ?na and m = ?ka and p = 2] sum_subtractf)
    also have "\<dots> = (\<Sum>i < ?na. \<Sum>k < ?ka. ?Da ! w ! i ! k * ?Ac ! i ! k)"
    proof (intro sum.cong refl)
      fix i k assume "i \<in> {..<?na}" "k \<in> {..<?ka}"
      then have ik: "i < ?na" "k < ?ka" by simp_all
      have ed01: "edown = 0 \<or> edown = 1" using ed by auto
      let ?d = "pairv (a_basis self ! k) (epos ! w) (atom_coords (mol self) ! i) -
                   a_partial self ! e ! w ! i ! k"
      have a0: "avalues self' ! w ! i ! k ! 0 =
          (if edown = 0 then avalues self ! w ! i ! k ! 0 + ?d else avalues self ! w ! i ! k ! 0)"
        using av [OF ik, of 0] by simp
      have a1: "avalues self' ! w ! i ! k ! 1 =
          (if edown = 1 then avalues self ! w ! i ! k ! 1 + ?d else avalues self ! w ! i ! k ! 1)"
        using av [OF ik, of 1] by simp
      have rhs: "?Da ! w ! i ! k * ?Ac ! i ! k = ?d * acoeff self ! i ! k ! edown"
        by (simp only: Da_at [OF ik] coeff_slice_a(2) [OF sh(5) ik])
      show "(\<Sum>s < 2. avalues self' ! w ! i ! k ! s * acoeff self ! i ! k ! s -
           avalues self ! w ! i ! k ! s * acoeff self ! i ! k ! s) = ?Da ! w ! i ! k * ?Ac ! i ! k"
        unfolding rhs sum2_expand a0 a1 using ed01 by (auto simp: algebra_simps)
    qed
    also have "\<dots> = dot2 (?Da ! w) ?Ac"
      using Da_sh coeff_slice_a(1) [OF sh(5)] by (simp add: dot2_sum [where n = ?na and m = ?ka])
    finally show ?thesis .
  qed
  have b_part: "dot2 (bvalues self' ! w) (bcoeff self) - dot2 (bvalues self ! w) (bcoeff self) =
      dot2 (?Db ! w) ?Bc"
  proof -
    have "dot2 (bvalues self' ! w) (bcoeff self) - dot2 (bvalues self ! w) (bcoeff self) =
        (\<Sum>l < ?kb. \<Sum>c < 3.
           bvalues self' ! w ! l ! c * bcoeff self ! l ! c -
           bvalues self ! w ! l ! c * bcoeff self ! l ! c)"
      using has_shape3_nth [OF sh'(6) w] has_shape3_nth [OF sh(6) w] sh(4)
      by (simp add: dot2_sum [where n = ?kb and m = 3] sum_subtractf)
    also have "\<dots> = (\<Sum>l < ?kb. \<Sum>c < 2. ?Db ! w ! l ! c * ?Bc ! l ! c)"
    proof (rule sum.cong [OF refl])
      fix l assume "l \<in> {..<?kb}"
      then have l: "l < ?kb" by simp
      have ed01: "edown = 0 \<or> edown = 1" using ed by auto
      let ?d = "\<lambda>c. b_split (b_basis self ! l) sep (others_of e (configscurrent self ! w)) (epos ! w)
                     ! c - b_partial self ! e ! w ! l ! c"
      have b0: "bvalues self' ! w ! l ! 0 =
          (if edown = 0 then bvalues self ! w ! l ! 0 + ?d 0 else bvalues self ! w ! l ! 0)"
        using bv [OF l, of 0] ed01 by auto
      have b1: "bvalues self' ! w ! l ! 1 =
          (if edown = 0 then bvalues self ! w ! l ! 1 + ?d 1 else bvalues self ! w ! l ! 1 + ?d 0)"
        using bv [OF l, of 1] ed01 by auto
      have b2: "bvalues self' ! w ! l ! 2 =
          (if edown = 0 then bvalues self ! w ! l ! 2 else bvalues self ! w ! l ! 2 + ?d 1)"
        using bv [OF l, of 2] ed01 by auto
      have rhs: "(\<Sum>c < 2. ?Db ! w ! l ! c * ?Bc ! l ! c) =
          ?d 0 * bcoeff self ! l ! edown + ?d 1 * bcoeff self ! l ! (edown + 1)"
        unfolding sum2_expand
        by (simp only: Db_at [OF l] coeff_slice_b(2) [OF sh(4) ed l] zero_less_numeral
            one_less_numeral_iff semiring_norm add_0_right)
      show "(\<Sum>c < 3. bvalues self' ! w ! l ! c * bcoeff self ! l ! c -
           bvalues self ! w ! l ! c * bcoeff self ! l ! c) = (\<Sum>c < 2. ?Db ! w ! l ! c * ?Bc ! l ! c)"
        unfolding rhs sum3_expand b0 b1 b2 using ed01 by (auto simp: algebra_simps numeral_2_eq_2)
    qed
    also have "\<dots> = dot2 (?Db ! w) ?Bc"
      using Db_sh coeff_slice_b(1) [OF sh(4) ed] by (simp add: dot2_sum [where n = ?kb and m = 2])
    finally show ?thesis .
  qed
  have "snd (value_wf self') ! w - snd (value_wf self) ! w =
      dot2 (?Db ! w) ?Bc + dot2 (?Da ! w) ?Ac"
    using a_part b_part w
    by (simp add: value_wf_at [OF ok w] value_wf_at [OF ok'] same)
  then show ?thesis by (simp add: v)
qed

















lemma updateinternals_spec:
  assumes ok: "shapes_ok self"
    and run: "updateinternals self e epos mask_opt = Inr self'"
    and msk_def: "msk = (case mask_opt of None \<Rightarrow> replicate (length (configscurrent self)) True
                         | Some m \<Rightarrow> m)"
    and edown_def: "edown = (if e \<ge> fst (nelec (mol self)) then 1 else 0 :: nat)"
    and sep_def: "sep = fst (nelec (mol self)) - (if e < fst (nelec (mol self)) then 1 else 0)"
  shows "update_spec self e epos msk edown sep self'"
proof (cases "msk = []")
  case True
  note e = update_success_D(3) [OF ok run msk_def]
  have "updateinternals self e epos mask_opt = updateinternals self e epos (Some [])"
    using True unfolding msk_def updateinternals_def by (cases mask_opt) simp_all
  also have "\<dots> = Inr self"
    using e has_shape4_D(1) [OF shapes_okD(8) [OF ok]] has_shape4_D(1) [OF shapes_okD(9) [OF ok]]
    by (intro updateinternals_empty) simp_all
  finally have "self' = self" using run by simp
  then show ?thesis
    unfolding update_spec_def True using ok by simp
next
  case False
  note pre = update_success_D(1,2) [OF ok run msk_def False] update_success_D(3) [OF ok run msk_def]
  have "\<exists>s2. updateinternals self e epos mask_opt = Inr s2 \<and> update_spec self e epos msk edown sep s2"
    unfolding update_spec_def
    by (rule updateinternals_char [OF refl refl refl refl refl refl msk_def edown_def sep_def ok pre])
  then obtain s2 where s2: "updateinternals self e epos mask_opt = Inr s2"
    and spec: "update_spec self e epos msk edown sep s2"
    by (elim exE conjE)
  have "s2 = self'" using s2 run by simp
  then show ?thesis using spec by simp
qed

lemma update_spec_same:
  assumes "update_spec self e epos msk edown sep self'"
  shows "mol self' = mol self" "nelec_total self' = nelec_total self"
    "a_basis self' = a_basis self" "b_basis self' = b_basis self"
    "bcoeff self' = bcoeff self" "acoeff self' = acoeff self"
    "length (configscurrent self') = length (configscurrent self)" "shapes_ok self'"
  using assms unfolding update_spec_def by - ((elim conjE, assumption)+)

lemma update_spec_av_all:
  assumes "update_spec self e epos msk edown sep self'"
  shows "\<forall>w < length (configscurrent self). \<forall>i < natm (mol self). \<forall>k < length (a_basis self). \<forall>s < 2.
        avalues self' ! w ! i ! k ! s =
          (if selected msk w \<and> s = edown
           then avalues self ! w ! i ! k ! s +
                  (pairv (a_basis self ! k) (epos ! w) (atom_coords (mol self) ! i) -
                   a_partial self ! e ! w ! i ! k)
           else avalues self ! w ! i ! k ! s)"
  using assms unfolding update_spec_def by - (elim conjE, assumption)

lemma update_spec_bv_all:
  assumes "update_spec self e epos msk edown sep self'"
  shows "\<forall>w < length (configscurrent self). \<forall>l < length (b_basis self). \<forall>c < 3.
        bvalues self' ! w ! l ! c =
          (if selected msk w \<and> edown \<le> c \<and> c < edown + 2
           then bvalues self ! w ! l ! c +
                  (b_split (b_basis self ! l) sep (others_of e (configscurrent self ! w)) (epos ! w)
                     ! (c - edown) -
                   b_partial self ! e ! w ! l ! (c - edown))
           else bvalues self ! w ! l ! c)"
  using assms unfolding update_spec_def by - (elim conjE, assumption)

lemma update_spec_ap_all:
  assumes "update_spec self e epos msk edown sep self'"
  shows "\<forall>j < nelec_total self. \<forall>w < length (configscurrent self). \<forall>i < natm (mol self).
        \<forall>k < length (a_basis self).
        a_partial self' ! j ! w ! i ! k =
          (if j = e \<and> selected msk w
           then pairv (a_basis self ! k) (epos ! w) (atom_coords (mol self) ! i)
           else a_partial self ! j ! w ! i ! k)"
  using assms unfolding update_spec_def by - (elim conjE, assumption)

lemma update_spec_bp_all:
  assumes "update_spec self e epos msk edown sep self'"
  shows "\<forall>j < nelec_total self. \<forall>w < length (configscurrent self). \<forall>l < length (b_basis self). \<forall>s < 2.
        b_partial self' ! j ! w ! l ! s =
           (if selected msk w then
              (if j = e then b_split (b_basis self ! l) sep (others_of e (configscurrent self ! w))
                               (epos ! w) ! s
               else if s = edown then
                 b_partial self ! j ! w ! l ! s +
                   (pairv (b_basis self ! l) (epos ! w) (configscurrent self ! w ! j) -
                    pairv (b_basis self ! l) (configscurrent self ! w ! e)
                      (configscurrent self ! w ! j))
               else b_partial self ! j ! w ! l ! s)
            else b_partial self ! j ! w ! l ! s)"
  using assms unfolding update_spec_def by - (elim conjE, assumption)

lemma update_spec_cf_all:
  assumes "update_spec self e epos msk edown sep self'"
  shows "\<forall>w < length (configscurrent self). \<forall>j < nelec_total self.
        configscurrent self' ! w ! j =
          (if selected msk w \<and> j = e then epos ! w else configscurrent self ! w ! j)"
  using assms unfolding update_spec_def by - (elim conjE, assumption)

lemmas update_spec_av = update_spec_av_all [rule_format]
lemmas update_spec_bv = update_spec_bv_all [rule_format]
lemmas update_spec_ap = update_spec_ap_all [rule_format]
lemmas update_spec_bp = update_spec_bp_all [rule_format]
lemmas update_spec_cf = update_spec_cf_all [rule_format]





lemma if_pos_cases:
  "(if c \<and> j = e then p else (f j)) = (if j = e then (if c then p else f e) else f j)"
  by simp




lemma minus_notin: "e \<notin> A \<Longrightarrow> A - {e} = A"
  by auto




lemma fold_update_length [simp]:
  "length (fold (\<lambda>e ys. ys[e := F e]) es xs) = length xs"
  by (induction es arbitrary: xs) simp_all


lemma a_table_partial [simp]:
  "a_table (self\<lparr>a_partial := ap\<rparr>) epos = a_table self epos"
  "a_table (self\<lparr>b_partial := bp\<rparr>) epos = a_table self epos"
  by (simp_all add: a_table_def)

lemma b_table_partial [simp]:
  "b_table (self\<lparr>a_partial := ap\<rparr>) e epos = b_table self e epos"
  "b_table (self\<lparr>b_partial := bp\<rparr>) e epos = b_table self e epos"
  by (simp_all add: b_table_def)







lemma map2_norm: "map2 f xs (map h xs) = map (\<lambda>x. f x (h x)) xs"
  by (rule map2_map_same)


lemma length_recompute_bvalues:
  "length (recompute_bvalues self cfg) = length cfg"
  "w < length cfg \<Longrightarrow> length (recompute_bvalues self cfg ! w) = length (b_basis self)"
  by (simp_all add: recompute_bvalues_def Let_def)

































section \<open>The engine with an odd two-body basis function\<close>











section \<open>Masks: the default, a wrong length, and the ratio query as a pure read\<close>




text \<open>
  Claim C5. \<^verbatim>\<open>testvalue\<close> writes no cache and does not move the bound ensemble: when it
  returns, the engine is the engine it was called on, for every particle, proposed position
  and mask.
\<close>

theorem testvalue_pure:
  "testvalue self e epos mask_opt = Inr (v, self') \<Longrightarrow> self' = self"
  by (auto simp: testvalue_def Let_def bindE_eq_Inr)

theorem testvalue_pure_witness:
  "testvalue ex_engine 1 ex_epos (Some [False, True]) = Inr ([exp (- 6)], ex_engine)"
proof -
  have "\<exists>s. testvalue ex_engine 1 ex_epos (Some [False, True]) = Inr ([exp (- 6)], s)"
    by (simp add: ex_defs eval_defs)
  then obtain s where s: "testvalue ex_engine 1 ex_epos (Some [False, True]) = Inr ([exp (- 6)], s)" ..
  from testvalue_pure [OF s] s show ?thesis by simp
qed





section \<open>Masked updates leave the other walkers alone\<close>

text \<open>
  Claim C4. For an engine with the shapes of a bound engine, a call
  \<^verbatim>\<open>updateinternals(e, epos, mask=mask)\<close> that returns leaves, for every walker whose flag
  in the mask is false, the rows of \<open>avalues\<close> and \<open>bvalues\<close>, the rows of \<open>a_partial\<close>
  and \<open>b_partial\<close> of every particle, and the positions of the bound ensemble as they were.
\<close>

theorem updateinternals_mask_isolation:
  assumes ok: "shapes_ok self"
    and run: "updateinternals self e epos (Some msk) = Inr self'"
    and w: "w < length (configscurrent self)"
    and unmasked: "\<not> msk ! w"
  shows "avalues self' ! w = avalues self ! w \<and>
         bvalues self' ! w = bvalues self ! w \<and>
         (\<forall>j < nelec_total self.
            a_partial self' ! j ! w = a_partial self ! j ! w \<and>
            b_partial self' ! j ! w = b_partial self ! j ! w) \<and>
         configscurrent self' ! w = configscurrent self ! w"
proof -
  let ?nconf = "length (configscurrent self)" and ?nel = "nelec_total self"
  let ?na = "natm (mol self)" and ?ka = "length (a_basis self)" and ?kb = "length (b_basis self)"
  let ?ed = "if e \<ge> fst (nelec (mol self)) then 1 else 0 :: nat"
  let ?sep = "fst (nelec (mol self)) - (if e < fst (nelec (mol self)) then 1 else 0)"
  have spec: "update_spec self e epos msk ?ed ?sep self'"
    using updateinternals_spec [OF ok run refl refl refl] by simp
  have ns: "\<not> selected msk w" using unmasked by (simp add: selected_def)
  note sm = update_spec_same [OF spec]
  have ok': "shapes_ok self'" by (rule sm(8))
  have same: "mol self' = mol self" "nelec_total self' = ?nel" "a_basis self' = a_basis self"
      "b_basis self' = b_basis self" "length (configscurrent self') = ?nconf"
    by (rule sm)+
  have av: "avalues self' ! w ! i ! k ! s = avalues self ! w ! i ! k ! s"
    if "i < ?na" "k < ?ka" "s < 2" for i k s
    using update_spec_av [OF spec w that] ns by simp
  have bv: "bvalues self' ! w ! l ! c = bvalues self ! w ! l ! c" if "l < ?kb" "c < 3" for l c
    using update_spec_bv [OF spec w that] ns by simp
  have ap: "a_partial self' ! j ! w ! i ! k = a_partial self ! j ! w ! i ! k"
    if "j < ?nel" "i < ?na" "k < ?ka" for j i k
    using update_spec_ap [OF spec that(1) w that(2,3)] ns by simp
  have bp: "b_partial self' ! j ! w ! l ! s = b_partial self ! j ! w ! l ! s"
    if "j < ?nel" "l < ?kb" "s < 2" for j l s
    using update_spec_bp [OF spec that(1) w that(2,3)] ns by simp
  have cf: "configscurrent self' ! w ! j = configscurrent self ! w ! j" if "j < ?nel" for j
    using update_spec_cf [OF spec w that] ns by simp
  note sh = shapes_okD [OF ok] and sh' = shapes_okD [OF ok', unfolded same]
  have "avalues self' ! w = avalues self ! w"
    using has_shape4_nth [OF sh'(7) w] has_shape4_nth [OF sh(7) w] av by (rule shape3_eqI)
  moreover have "bvalues self' ! w = bvalues self ! w"
    using has_shape3_nth [OF sh'(6) w] has_shape3_nth [OF sh(6) w] bv by (rule shape2_eqI)
  moreover have "a_partial self' ! j ! w = a_partial self ! j ! w" if j: "j < ?nel" for j
    using has_shape3_nth [OF has_shape4_nth [OF sh'(8) j] w]
      has_shape3_nth [OF has_shape4_nth [OF sh(8) j] w] ap [OF j] by (rule shape2_eqI)
  moreover have "b_partial self' ! j ! w = b_partial self ! j ! w" if j: "j < ?nel" for j
    using has_shape3_nth [OF has_shape4_nth [OF sh'(9) j] w]
      has_shape3_nth [OF has_shape4_nth [OF sh(9) j] w] bp [OF j] by (rule shape2_eqI)
  moreover have "configscurrent self' ! w = configscurrent self ! w"
    using has_shape2_D(2) [OF sh'(3) w] has_shape2_D(2) [OF sh(3) w] cf
    by (auto intro!: nth_equalityI)
  ultimately show ?thesis by blast
qed

theorem updateinternals_mask_isolation_witness:
  "shapes_ok ex_engine \<and>
   updateinternals ex_engine 1 ex_epos (Some [False, True]) = Inr ex_moved \<and>
   (0 :: nat) < length (configscurrent ex_engine) \<and> \<not> [False, True] ! 0 \<and>
   avalues ex_moved ! 0 = avalues ex_engine ! 0 \<and>
   bvalues ex_moved ! 0 = bvalues ex_engine ! 0 \<and>
   a_partial ex_moved ! 1 ! 0 = a_partial ex_engine ! 1 ! 0 \<and>
   b_partial ex_moved ! 2 ! 0 = b_partial ex_engine ! 2 ! 0 \<and>
   configscurrent ex_moved ! 0 = configscurrent ex_engine ! 0"
proof -
  have w: "(0 :: nat) < length (configscurrent ex_engine)"
    by (simp add: ex_defs)
  have u: "\<not> [False, True] ! 0" by simp
  have n: "nelec_total ex_engine = 3" by (simp add: ex_defs)
  from updateinternals_mask_isolation [OF ex_shapes ex_update w u] ex_shapes ex_update w
  show ?thesis by (simp add: n)
qed

section \<open>The ratio query against the committed move\<close>

text \<open>
  The ratio in exact arithmetic. On an engine with the shapes of a bound engine, for every
  particle \<open>e\<close> and proposed position, the ratio \<^verbatim>\<open>testvalue\<close> returns for a walker under
  the all-true mask is the exponential of the log value \<^verbatim>\<open>value()\<close> gives after
  \<^verbatim>\<open>updateinternals\<close> has committed the same move, minus the log value before it. This is
  an equality of real numbers. The program computes the two sides in double precision by
  different sequences of rounded operations; whether the two results are the same double
  is a property of that rounding, which is not part of the model.
\<close>

lemma testvalue_is_update_ratio:
  assumes "shapes_ok self"
    and "testvalue self e epos (Some (replicate (length (configscurrent self)) True)) = Inr (v, s)"
    and "updateinternals self e epos (Some (replicate (length (configscurrent self)) True)) =
           Inr self'"
    and "w < length (configscurrent self)"
  shows "v ! w = exp (snd (value_wf self') ! w - snd (value_wf self) ! w)"
proof -
  let ?msk = "replicate (length (configscurrent self)) True"
  have "v ! rank ?msk w = exp (snd (value_wf self') ! w - snd (value_wf self) ! w)"
    using assms by (intro ratio_general [where mask_opt = "Some ?msk" and s = s]) simp_all
  then show ?thesis
    using assms(4) by (simp add: rank_all_true)
qed

lemma testvalue_is_update_ratio_example:
  "shapes_ok ex_engine \<and>
   testvalue ex_engine 1 ex_epos (Some (replicate (length (configscurrent ex_engine)) True)) =
     Inr ([exp 20, exp (- 6)], ex_engine) \<and>
   updateinternals ex_engine 1 ex_epos (Some (replicate (length (configscurrent ex_engine)) True)) =
     Inr ex_moved_all \<and>
   [exp 20, exp (- 6)] ! 0 = exp (snd (value_wf ex_moved_all) ! 0 - snd (value_wf ex_engine) ! 0)"
proof -
  have n: "replicate (length (configscurrent ex_engine)) True = [True, True]"
    by (simp add: ex_defs)
  have w: "0 < length (configscurrent ex_engine)"
    by (simp add: ex_defs)
  from testvalue_is_update_ratio [OF ex_shapes ex_testvalue_all [folded n] ex_update_all [folded n] w]
    ex_shapes ex_testvalue_all [folded n] ex_update_all [folded n]
  show ?thesis by blast
qed

section \<open>The value and the parameter gradient\<close>

text \<open>
  Claim C8. The sign \<^verbatim>\<open>value()\<close> and \<^verbatim>\<open>recompute\<close> return is 1, whatever the engine and the
  ensemble; the pair \<^verbatim>\<open>recompute\<close> returns is the pair \<^verbatim>\<open>value()\<close> gives on the engine it
  leaves. The log value of \<^verbatim>\<open>value()\<close> is the contraction of the cached \<open>bvalues\<close> and
  \<open>avalues\<close> with the two coefficient tensors, and no other field of the engine enters it:
  neither the bound positions, nor the basis functions, nor the partial sums.
\<close>

theorem value_sign_and_cache:
  "fst (value_wf self) = 1 \<and>
   (recompute self cfg = Inr (r, self') \<longrightarrow> fst r = 1 \<and> r = value_wf self') \<and>
   snd (value_wf self) =
     map2 (+) (map (\<lambda>bw. dot2 bw (bcoeff self)) (bvalues self))
              (map (\<lambda>aw. dot3 aw (acoeff self)) (avalues self)) \<and>
   value_wf (self\<lparr>mol := m, nelec_total := n, a_basis := ab, b_basis := bb,
                  configscurrent := c, a_partial := ap, b_partial := bp\<rparr>) = value_wf self"
  by (auto simp: value_wf_def recompute_def Let_def bindE_eq_Inr)

theorem value_sign_and_cache_witness:
  "recompute ex_unbound ex_configs = Inr ((1, [60, 117]), ex_engine) \<and>
   fst (1 :: int, [60, 117 :: real]) = 1 \<and> (1, [60, 117]) = value_wf ex_engine"
proof -
  have v: "value_wf ex_engine = (1, [60, 117])"
    by (simp add: ex_defs eval_defs)
  from value_sign_and_cache [where self = ex_unbound and cfg = ex_configs
      and r = "(1, [60, 117])" and self' = ex_engine]
    ex_recompute v
  show ?thesis by simp
qed

lemma dot2_update:
  assumes "has_shape2 xs n m" "has_shape2 ys n m" "l < n" "c < m"
  shows "dot2 xs (ys[l := (ys ! l)[c := x]]) = dot2 xs ys + xs ! l ! c * (x - ys ! l ! c)"
proof -
  let ?ys = "ys[l := (ys ! l)[c := x]]"
  have sh: "has_shape2 ?ys n m"
    using assms by (auto simp: has_shape2_def list_all_length nth_list_update)
  have at: "?ys ! i ! j = (if i = l \<and> j = c then x else ys ! i ! j)" if "i < n" "j < m" for i j
    using that assms by (auto simp: has_shape2_D nth_list_update)
  have "dot2 xs ?ys - dot2 xs ys = (\<Sum>i < n. \<Sum>j < m. xs ! i ! j * (?ys ! i ! j - ys ! i ! j))"
    by (simp add: dot2_sum [OF assms(1) sh] dot2_sum [OF assms(1,2)] sum_subtractf right_diff_distrib)
  also have "\<dots> = (\<Sum>i < n. \<Sum>j < m. if i = l \<and> j = c then xs ! l ! c * (x - ys ! l ! c) else 0)"
    by (intro sum.cong refl) (auto simp: at)
  also have "\<dots> = (\<Sum>i < n. if i = l then (\<Sum>j < m. if j = c then xs ! l ! c * (x - ys ! l ! c) else 0) else 0)"
    by (intro sum.cong refl) auto
  also have "\<dots> = xs ! l ! c * (x - ys ! l ! c)"
    using assms(3,4) by (simp add: sum.delta)
  finally show ?thesis by simp
qed


lemma dot3_update:
  assumes "has_shape3 xs n m p" "has_shape3 ys n m p" "i < n" "k < m" "c < p"
  shows "dot3 xs (ys[i := (ys ! i)[k := (ys ! i ! k)[c := x]]]) =
     dot3 xs ys + xs ! i ! k ! c * (x - ys ! i ! k ! c)"
proof -
  let ?row = "(ys ! i)[k := (ys ! i ! k)[c := x]]"
  let ?ys = "ys[i := ?row]"
  have ysi: "has_shape2 (ys ! i) m p" using has_shape3_nth [OF assms(2,3)] .
  have row: "has_shape2 ?row m p"
    using ysi assms by (auto simp: has_shape2_def list_all_length nth_list_update)
  have sh: "has_shape3 ?ys n m p"
    using assms row by (auto simp: has_shape3_def list_all_length nth_list_update)
  have "dot3 xs ?ys - dot3 xs ys = (\<Sum>j < n. dot2 (xs ! j) (?ys ! j) - dot2 (xs ! j) (ys ! j))"
    using assms sh
    by (simp add: dot3_def sum_list_sum_nth atLeast0LessThan has_shape3_D sum_subtractf)
  also have "\<dots> = (\<Sum>j < n. if j = i then xs ! i ! k ! c * (x - ys ! i ! k ! c) else 0)"
  proof (rule sum.cong [OF refl])
    fix j assume "j \<in> {..<n}"
    then have j: "j < n" by simp
    show "dot2 (xs ! j) (?ys ! j) - dot2 (xs ! j) (ys ! j) =
        (if j = i then xs ! i ! k ! c * (x - ys ! i ! k ! c) else 0)"
      using j dot2_update [OF has_shape3_nth [OF assms(1,3)] ysi assms(4,5), of x]
        has_shape3_D(1) [OF assms(2)]
      by (auto simp: nth_list_update)
  qed
  also have "\<dots> = xs ! i ! k ! c * (x - ys ! i ! k ! c)"
    using assms(3) by (simp add: sum.delta)
  finally show ?thesis by simp
qed

text \<open>
  Claim C7. \<^verbatim>\<open>pgradient\<close> returns the cached \<open>bvalues\<close> under the key \<^verbatim>\<open>bcoeff\<close> and the
  cached \<open>avalues\<close> under the key \<^verbatim>\<open>acoeff\<close>. On an engine with the shapes of a bound engine
  these are the derivatives of the log value of every walker with respect to the
  coefficient of the same indices, at every value of that coefficient.
\<close>

theorem pgradient_is_coefficient_derivative:
  "map_of (pgradient self) ''bcoeff'' = Some (Bcoeff_grad (bvalues self)) \<and>
   map_of (pgradient self) ''acoeff'' = Some (Acoeff_grad (avalues self)) \<and>
   (shapes_ok self \<and> w < length (configscurrent self) \<longrightarrow>
      (\<forall>l < length (b_basis self). \<forall>c < 3.
         ((\<lambda>x. snd (value_wf (self\<lparr>bcoeff := (bcoeff self)[l := (bcoeff self ! l)[c := x]]\<rparr>)) ! w)
            has_real_derivative bvalues self ! w ! l ! c) (at x0)) \<and>
      (\<forall>i < natm (mol self). \<forall>k < length (a_basis self). \<forall>s < 2.
         ((\<lambda>x. snd (value_wf (self\<lparr>acoeff :=
                 (acoeff self)[i := (acoeff self ! i)[k := (acoeff self ! i ! k)[s := x]]]\<rparr>)) ! w)
            has_real_derivative avalues self ! w ! i ! k ! s) (at x0)))"
proof (intro conjI impI allI)
  show "map_of (pgradient self) ''bcoeff'' = Some (Bcoeff_grad (bvalues self))"
    by (simp add: pgradient_def)
  show "map_of (pgradient self) ''acoeff'' = Some (Acoeff_grad (avalues self))"
    by (simp add: pgradient_def)
next
  fix l c :: nat
  assume A: "shapes_ok self \<and> w < length (configscurrent self)"
    and l: "l < length (b_basis self)" and c: "c < 3"
  then have ok: "shapes_ok self" and w: "w < length (configscurrent self)" by simp_all
  note sh = shapes_okD [OF ok]
  have lb: "length (bvalues self) = length (configscurrent self)"
    and la: "length (avalues self) = length (configscurrent self)"
    using sh(6,7) by (simp_all add: has_shape3_D has_shape4_D)
  have eq: "snd (value_wf (self\<lparr>bcoeff := (bcoeff self)[l := (bcoeff self ! l)[c := x]]\<rparr>)) ! w =
      snd (value_wf self) ! w + bvalues self ! w ! l ! c * (x - bcoeff self ! l ! c)" for x
    using w lb la dot2_update [OF has_shape3_nth [OF sh(6) w] sh(4) l c, of x]
    by (simp add: value_wf_def Let_def)
  show "((\<lambda>x. snd (value_wf (self\<lparr>bcoeff := (bcoeff self)[l := (bcoeff self ! l)[c := x]]\<rparr>)) ! w)
            has_real_derivative bvalues self ! w ! l ! c) (at x0)"
    unfolding eq by (auto intro!: derivative_eq_intros)
next
  fix i k s :: nat
  assume A: "shapes_ok self \<and> w < length (configscurrent self)"
    and i: "i < natm (mol self)" and k: "k < length (a_basis self)" and s: "s < 2"
  then have ok: "shapes_ok self" and w: "w < length (configscurrent self)" by simp_all
  note sh = shapes_okD [OF ok]
  have lb: "length (bvalues self) = length (configscurrent self)"
    and la: "length (avalues self) = length (configscurrent self)"
    using sh(6,7) by (simp_all add: has_shape3_D has_shape4_D)
  have eq: "snd (value_wf (self\<lparr>acoeff :=
        (acoeff self)[i := (acoeff self ! i)[k := (acoeff self ! i ! k)[s := x]]]\<rparr>)) ! w =
      snd (value_wf self) ! w + avalues self ! w ! i ! k ! s * (x - acoeff self ! i ! k ! s)" for x
    using w lb la dot3_update [OF has_shape4_nth [OF sh(7) w] sh(5) i k s, of x]
    by (simp add: value_wf_def Let_def)
  show "((\<lambda>x. snd (value_wf (self\<lparr>acoeff :=
                 (acoeff self)[i := (acoeff self ! i)[k := (acoeff self ! i ! k)[s := x]]]\<rparr>)) ! w)
            has_real_derivative avalues self ! w ! i ! k ! s) (at x0)"
    unfolding eq by (auto intro!: derivative_eq_intros)
qed

theorem pgradient_is_coefficient_derivative_witness:
  "shapes_ok ex_engine \<and> (0 :: nat) < length (configscurrent ex_engine) \<and>
   map_of (pgradient ex_engine) ''bcoeff'' = Some (Bcoeff_grad [[[2, 10, 0]], [[2, 16, 0]]]) \<and>
   map_of (pgradient ex_engine) ''acoeff'' = Some (Acoeff_grad [[[[2, 4]]], [[[4, 9]]]]) \<and>
   ((\<lambda>x. snd (value_wf (ex_engine\<lparr>bcoeff := (bcoeff ex_engine)[0 := (bcoeff ex_engine ! 0)[1 := x]]\<rparr>)) ! 0)
      has_real_derivative 10) (at 2) \<and>
   ((\<lambda>x. snd (value_wf (ex_engine\<lparr>acoeff :=
        (acoeff ex_engine)[0 := (acoeff ex_engine ! 0)[0 := (acoeff ex_engine ! 0 ! 0)[1 := x]]]\<rparr>)) ! 0)
      has_real_derivative 4) (at 7)"
proof -
  have w: "(0 :: nat) < length (configscurrent ex_engine)" by (simp add: ex_defs)
  have n: "length (b_basis ex_engine) = 1" "natm (mol ex_engine) = 1" "length (a_basis ex_engine) = 1"
    "bvalues ex_engine = [[[2, 10, 0]], [[2, 16, 0]]]" "avalues ex_engine = [[[[2, 4]]], [[[4, 9]]]]"
    by (simp_all add: ex_defs)
  from pgradient_is_coefficient_derivative [of ex_engine 0 2]
  have 1: "map_of (pgradient ex_engine) ''bcoeff'' = Some (Bcoeff_grad (bvalues ex_engine))"
    and 2: "map_of (pgradient ex_engine) ''acoeff'' = Some (Acoeff_grad (avalues ex_engine))"
    and 3: "((\<lambda>x. snd (value_wf (ex_engine\<lparr>bcoeff := (bcoeff ex_engine)[0 := (bcoeff ex_engine ! 0)[1 := x]]\<rparr>)) ! 0)
      has_real_derivative bvalues ex_engine ! 0 ! 0 ! 1) (at 2)"
    using ex_shapes w by (simp_all add: n(1))
  from pgradient_is_coefficient_derivative [of ex_engine 0 7]
  have 4: "((\<lambda>x. snd (value_wf (ex_engine\<lparr>acoeff :=
        (acoeff ex_engine)[0 := (acoeff ex_engine ! 0)[0 := (acoeff ex_engine ! 0 ! 0)[1 := x]]]\<rparr>)) ! 0)
      has_real_derivative avalues ex_engine ! 0 ! 0 ! 0 ! 1) (at 7)"
    using ex_shapes w by (simp add: n(2,3))
  show ?thesis
    using ex_shapes w 1 2 3 4 by (simp add: n(4,5))
qed


section \<open>The invariants after recompute and after an update\<close>









section \<open>The Laplacian\<close>




section \<open>Recomputation against sequential updates\<close>













end
